theory Spec2Isabelle
  imports Main
begin

section \<open>Python values, exceptions and cluster calls\<close>

text \<open>
  The exception classes that \<^verbatim>\<open>trainer_client.py\<close> raises, catches or can receive from
  the calls it makes. \<open>MultiprocessingTimeoutError\<close> is \<^verbatim>\<open>multiprocessing.TimeoutError\<close>,
  which is not a subclass of the builtin \<^verbatim>\<open>TimeoutError\<close>; \<open>Exception\<close> stands for
  a plain \<^verbatim>\<open>Exception\<close> and for every other subclass of it. Messages are not modelled.
\<close>

datatype error =
    ValueError
  | TimeoutError
  | RuntimeError
  | MultiprocessingTimeoutError
  | KeyError
  | IndexError
  | AttributeError
  | Exception

text \<open>The requests the client sends to the cluster, recorded in the order they are made.\<close>

datatype api_call =
    GetTrainJob string
  | GetRuntime string
  | ListPods string string
  | WatchPods string int
  | ReadPodLog string string
  | StreamPodLog string string

text \<open>
  A computation of the client: the value it returns or the exception it raises, together
  with the cluster calls it made on the way.
\<close>

type_synonym 'a io = "(error + 'a) \<times> api_call list"

definition return_io :: "'a \<Rightarrow> 'a io" where
  "return_io x = (Inr x, [])"

definition raise_io :: "error \<Rightarrow> 'a io" where
  "raise_io e = (Inl e, [])"

definition lift_io :: "error + 'a \<Rightarrow> 'a io" where
  "lift_io r = (r, [])"

definition request :: "api_call \<Rightarrow> error + 'a \<Rightarrow> 'a io" where
  "request c response = (response, [c])"

definition bind_io :: "'a io \<Rightarrow> ('a \<Rightarrow> 'b io) \<Rightarrow> 'b io" where
  "bind_io m f =
     (case m of
        (Inl e, t) \<Rightarrow> (Inl e, t)
      | (Inr x, t) \<Rightarrow> (case f x of (r, t') \<Rightarrow> (r, t @ t')))"

text \<open>\<^verbatim>\<open>try: m  except ...: raise h(e)\<close>: every handler of the file re-raises.\<close>

definition try_except :: "'a io \<Rightarrow> (error \<Rightarrow> error) \<Rightarrow> 'a io" where
  "try_except m h = (case m of (Inl e, t) \<Rightarrow> (Inl (h e), t) | (Inr x, t) \<Rightarrow> (Inr x, t))"

text \<open>
  \<^verbatim>\<open>except multiprocessing.TimeoutError: raise TimeoutError(...)\<close>
  \<^verbatim>\<open>except Exception: raise RuntimeError(...)\<close>
\<close>

definition api_handlers :: "error \<Rightarrow> error" where
  "api_handlers e = (if e = MultiprocessingTimeoutError then TimeoutError else RuntimeError)"

subsection \<open>Strings\<close>

text \<open>\<^verbatim>\<open>s.startswith(p)\<close>\<close>

definition startswith :: "string \<Rightarrow> string \<Rightarrow> bool" where
  "startswith s p = (take (length p) s = p)"

text \<open>\<^verbatim>\<open>str(n)\<close> of an integer, as an f-string formats it: decimal, with a minus sign.\<close>

definition digit_char :: "nat \<Rightarrow> char" where
  "digit_char d = ''0123456789'' ! (d mod 10)"

fun str_nat :: "nat \<Rightarrow> string" where
  "str_nat n = (if n < 10 then [digit_char n] else str_nat (n div 10) @ [digit_char (n mod 10)])"

declare str_nat.simps [simp del]

definition str_int :: "int \<Rightarrow> string" where
  "str_int i = (if i < 0 then CHR ''-'' # str_nat (nat (- i)) else str_nat (nat i))"

text \<open>
  \<^verbatim>\<open>int(s)\<close> of a string: surrounding whitespace is stripped, one sign is allowed, the
  digits may be separated by single underscores; anything else raises ValueError.
  Label values are ASCII, so only the ASCII digits and the whitespace that \<^verbatim>\<open>int\<close>
  skips in an ASCII string (space, tab, line feed, vertical tab, form feed, carriage
  return) are covered.
\<close>

definition is_space :: "char \<Rightarrow> bool" where
  "is_space c = (c \<in> set [CHR '' '', CHR 0x09, CHR 0x0A, CHR 0x0B, CHR 0x0C, CHR 0x0D])"

definition strip :: "string \<Rightarrow> string" where
  "strip s = rev (dropWhile is_space (rev (dropWhile is_space s)))"

definition digit_val :: "char \<Rightarrow> nat option" where
  "digit_val c = map_of (zip ''0123456789'' [0, 1, 2, 3, 4, 5, 6, 7, 8, 9]) c"

fun digits_val :: "nat \<Rightarrow> string \<Rightarrow> nat option" where
  "digits_val acc [] = Some acc"
| "digits_val acc [c] = (case digit_val c of None \<Rightarrow> None | Some v \<Rightarrow> Some (10 * acc + v))"
| "digits_val acc (c # d # ds) =
     (if c = CHR ''_'' then
        (case digit_val d of None \<Rightarrow> None | Some v \<Rightarrow> digits_val (10 * acc + v) ds)
      else
        (case digit_val c of None \<Rightarrow> None | Some v \<Rightarrow> digits_val (10 * acc + v) (d # ds)))"

definition unsigned_val :: "string \<Rightarrow> nat option" where
  "unsigned_val s =
     (case s of
        [] \<Rightarrow> None
      | c # cs \<Rightarrow> (case digit_val c of None \<Rightarrow> None | Some v \<Rightarrow> digits_val v cs))"

definition py_int :: "string \<Rightarrow> error + int" where
  "py_int s =
     (case strip s of
        [] \<Rightarrow> Inl ValueError
      | c # cs \<Rightarrow>
          (if c = CHR ''-'' then
             (case unsigned_val cs of None \<Rightarrow> Inl ValueError | Some n \<Rightarrow> Inr (- int n))
           else if c = CHR ''+'' then
             (case unsigned_val cs of None \<Rightarrow> Inl ValueError | Some n \<Rightarrow> Inr (int n))
           else
             (case unsigned_val (c # cs) of None \<Rightarrow> Inl ValueError | Some n \<Rightarrow> Inr (int n))))"

subsection \<open>Constants of \<^verbatim>\<open>constants.py\<close>\<close>

abbreviation TRAINJOB_CREATED :: string where "TRAINJOB_CREATED \<equiv> ''Created''"
abbreviation TRAINJOB_RUNNING :: string where "TRAINJOB_RUNNING \<equiv> ''Running''"
abbreviation TRAINJOB_COMPLETE :: string where "TRAINJOB_COMPLETE \<equiv> ''Complete''"
abbreviation TRAINJOB_FAILED :: string where "TRAINJOB_FAILED \<equiv> ''Failed''"
abbreviation DATASET_INITIALIZER :: string where
  "DATASET_INITIALIZER \<equiv> ''dataset-initializer''"
abbreviation MODEL_INITIALIZER :: string where "MODEL_INITIALIZER \<equiv> ''model-initializer''"
abbreviation LAUNCHER :: string where "LAUNCHER \<equiv> ''launcher''"
abbreviation NODE :: string where "NODE \<equiv> ''node''"
abbreviation JOBSET_RJOB_NAME_LABEL :: string where
  "JOBSET_RJOB_NAME_LABEL \<equiv> ''jobset.sigs.k8s.io/replicatedjob-name''"
abbreviation JOB_INDEX_LABEL :: string where
  "JOB_INDEX_LABEL \<equiv> ''batch.kubernetes.io/job-completion-index''"
abbreviation POD_PENDING :: string where "POD_PENDING \<equiv> ''Pending''"

section \<open>The resources read from the cluster\<close>

text \<open>
  The generated API models are not part of the client; each record holds the fields the
  client reads. A field the client tests for truth before use is an \<open>option\<close>. The
  Pod spec, the ML policy and the replicated jobs are only handed on to helpers, so
  their types are parameters.
\<close>

record ObjectMeta =
  name :: "string option"
  namespace :: "string option"
  creation_timestamp :: "nat option"
  labels :: "(string \<times> string) list option"

record condition =
  type :: string
  status :: string

record TrainJobStatus =
  conditions :: "condition list option"

record RuntimeRef =
  name :: string

record Trainer =
  num_nodes :: "int option"

record TrainJobSpec =
  runtime_ref :: "RuntimeRef option"
  trainer :: "Trainer option"

record TrainJob_crd =
  metadata :: "ObjectMeta option"
  spec :: "TrainJobSpec option"
  status :: "TrainJobStatus option"

record 'rj JobSetSpec =
  replicated_jobs :: "'rj list option"

record 'rj JobSetTemplateSpec =
  spec :: "'rj JobSetSpec option"

record ('rj, 'mlp) TrainingRuntimeSpec =
  ml_policy :: "'mlp option"
  template :: "'rj JobSetTemplateSpec"

record ('rj, 'mlp) ClusterTrainingRuntime =
  metadata :: "ObjectMeta option"
  spec :: "('rj, 'mlp) TrainingRuntimeSpec option"

record PodStatus =
  phase :: "string option"

record 'spec Pod =
  metadata :: "ObjectMeta option"
  spec :: "'spec option"
  status :: "PodStatus option"

section \<open>The types the client returns\<close>

record RuntimeTrainer =
  num_nodes :: int

record Runtime =
  name :: string
  trainer :: RuntimeTrainer

record Step =
  name :: string
  status :: "string option"
  pod_name :: string

record TrainJob =
  name :: string
  creation_timestamp :: nat
  runtime :: Runtime
  steps :: "Step list"
  num_nodes :: int
  status :: string

text \<open>
  The helpers of \<^verbatim>\<open>kubeflow.trainer.utils\<close> that the client calls. The module is not
  part of the client, so the three functions are parameters of the model; each may raise.
  The initializer helper receives the Pod's name, spec and status; the node helper
  receives in addition the Runtime, the replicated-job label and the completion index.
\<close>

record ('rj, 'mlp, 'spec) utils =
  get_runtime_trainer :: "'rj list \<Rightarrow> 'mlp \<Rightarrow> error + RuntimeTrainer"
  get_trainjob_initializer_step :: "string \<Rightarrow> 'spec \<Rightarrow> PodStatus option \<Rightarrow> error + Step"
  get_trainjob_node_step ::
    "string \<Rightarrow> 'spec \<Rightarrow> PodStatus option \<Rightarrow> Runtime \<Rightarrow> string \<Rightarrow> int \<Rightarrow> error + Step"

text \<open>
  What the cluster answers to the three requests of one \<^verbatim>\<open>get_job\<close>: the value of
  \<^verbatim>\<open>thread.get(DEFAULT_TIMEOUT)\<close> parsed by \<^verbatim>\<open>from_dict\<close> (which gives
  \<^verbatim>\<open>None\<close> on \<^verbatim>\<open>None\<close>), or the exception raised on the way.
\<close>

record ('rj, 'mlp, 'spec) responses =
  get_namespaced_custom_object :: "error + TrainJob_crd option"
  get_cluster_custom_object :: "string \<Rightarrow> error + ('rj, 'mlp) ClusterTrainingRuntime option"
  list_namespaced_pod :: "error + 'spec Pod list option"

section \<open>Runtimes\<close>

text \<open>\<^verbatim>\<open>TrainerClient.__get_runtime_from_crd\<close>; reading a field of \<^verbatim>\<open>None\<close> raises AttributeError.\<close>

definition get_runtime_from_crd ::
  "('rj, 'mlp, 'spec) utils \<Rightarrow> ('rj, 'mlp) ClusterTrainingRuntime option \<Rightarrow> error + Runtime" where
  "get_runtime_from_crd u runtime_crd =
     (case runtime_crd of
        None \<Rightarrow> Inl AttributeError
      | Some crd \<Rightarrow>
          (case ClusterTrainingRuntime.metadata crd of
             None \<Rightarrow> Inl Exception
           | Some m \<Rightarrow>
               (case ObjectMeta.name m of
                  None \<Rightarrow> Inl Exception
                | Some n \<Rightarrow>
                    if n = [] then Inl Exception
                    else
                      (case ClusterTrainingRuntime.spec crd of
                         None \<Rightarrow> Inl Exception
                       | Some sp \<Rightarrow>
                           (case ml_policy sp of
                              None \<Rightarrow> Inl Exception
                            | Some mlp \<Rightarrow>
                                (case JobSetTemplateSpec.spec (template sp) of
                                   None \<Rightarrow> Inl Exception
                                 | Some js \<Rightarrow>
                                     (case replicated_jobs js of
                                        None \<Rightarrow> Inl Exception
                                      | Some rjs \<Rightarrow>
                                          if rjs = [] then Inl Exception
                                          else
                                            (case get_runtime_trainer u rjs mlp of
                                               Inl e \<Rightarrow> Inl e
                                             | Inr t \<Rightarrow>
                                                 Inr \<lparr>Runtime.name = n, trainer = t\<rparr>))))))))"

text \<open>\<^verbatim>\<open>TrainerClient.get_runtime\<close>: the conversion runs outside the \<^verbatim>\<open>try\<close>.\<close>

definition get_runtime ::
  "('rj, 'mlp, 'spec) utils \<Rightarrow> ('rj, 'mlp, 'spec) responses \<Rightarrow> string \<Rightarrow> Runtime io" where
  "get_runtime u r n =
     bind_io (try_except (request (GetRuntime n) (get_cluster_custom_object r n)) api_handlers)
       (\<lambda>runtime. lift_io (get_runtime_from_crd u runtime))"

section \<open>Building a TrainJob from its resource\<close>

text \<open>
  The body of the loop over \<^verbatim>\<open>pod_list.items\<close> in
  \<^verbatim>\<open>TrainerClient.__get_trainjob_from_crd\<close>: the steps with the Pod's step appended.
  \<^verbatim>\<open>labels[key]\<close> raises KeyError on a missing key, \<^verbatim>\<open>int(...)\<close> raises ValueError.
  A Pod whose replicated-job label is none of the four roles adds no step.
\<close>

definition getitem :: "(string \<times> string) list \<Rightarrow> string \<Rightarrow> error + string" where
  "getitem d k = (case map_of d k of None \<Rightarrow> Inl KeyError | Some v \<Rightarrow> Inr v)"

definition add_pod_step ::
  "('rj, 'mlp, 'spec) utils \<Rightarrow> Runtime \<Rightarrow> 'spec Pod \<Rightarrow> Step list \<Rightarrow> error + Step list" where
  "add_pod_step u rt pod ss =
     (case Pod.metadata pod of
        None \<Rightarrow> Inl Exception
      | Some m \<Rightarrow>
          (case (ObjectMeta.name m, labels m, Pod.spec pod) of
             (Some pname, Some ls, Some pspec) \<Rightarrow>
               if pname = [] \<or> ls = [] then Inl Exception
               else
                 (case getitem ls JOBSET_RJOB_NAME_LABEL of
                    Inl e \<Rightarrow> Inl e
                  | Inr role \<Rightarrow>
                      if role \<in> {DATASET_INITIALIZER, MODEL_INITIALIZER} then
                        (case get_trainjob_initializer_step u pname pspec (Pod.status pod) of
                           Inl e \<Rightarrow> Inl e
                         | Inr step \<Rightarrow> Inr (ss @ [step]))
                      else if role \<in> {LAUNCHER, NODE} then
                        (case getitem ls JOB_INDEX_LABEL of
                           Inl e \<Rightarrow> Inl e
                         | Inr idx \<Rightarrow>
                             (case py_int idx of
                                Inl e \<Rightarrow> Inl e
                              | Inr i \<Rightarrow>
                                  (case get_trainjob_node_step u pname pspec (Pod.status pod) rt role i of
                                     Inl e \<Rightarrow> Inl e
                                   | Inr step \<Rightarrow> Inr (ss @ [step]))))
                      else Inr ss)
           | _ \<Rightarrow> Inl Exception))"

text \<open>The loop itself: it stops at the first Pod that raises.\<close>

fun add_pod_steps ::
  "('rj, 'mlp, 'spec) utils \<Rightarrow> Runtime \<Rightarrow> 'spec Pod list \<Rightarrow> Step list \<Rightarrow> error + Step list" where
  "add_pod_steps u rt [] ss = Inr ss"
| "add_pod_steps u rt (pod # pods) ss =
     (case add_pod_step u rt pod ss of
        Inl e \<Rightarrow> Inl e
      | Inr ss' \<Rightarrow> add_pod_steps u rt pods ss')"

text \<open>
  The \<^verbatim>\<open>try\<close> block that lists the Pods. \<open>None\<close> is the early
  \<^verbatim>\<open>return trainjob\<close> taken when \<^verbatim>\<open>pod_list\<close> is \<^verbatim>\<open>None\<close>;
  \<open>Some ss\<close> is the normal end of the block.
\<close>

definition list_steps ::
  "('rj, 'mlp, 'spec) utils \<Rightarrow> ('rj, 'mlp, 'spec) responses \<Rightarrow> Runtime \<Rightarrow> string \<Rightarrow> string
     \<Rightarrow> Step list option io" where
  "list_steps u r rt ns n =
     try_except
       (bind_io (request (ListPods ns n) (list_namespaced_pod r))
          (\<lambda>pod_list.
             case pod_list of
               None \<Rightarrow> return_io None
             | Some items \<Rightarrow>
                 (case add_pod_steps u rt items [] of
                    Inl e \<Rightarrow> raise_io e
                  | Inr ss \<Rightarrow> return_io (Some ss))))
       api_handlers"

text \<open>
  The loop \<^verbatim>\<open>for c in trainjob_crd.status.conditions\<close>: each condition that is
  Complete or Failed with status \<^verbatim>\<open>"True"\<close> overwrites the status.
\<close>

fun update_status :: "condition list \<Rightarrow> TrainJob \<Rightarrow> TrainJob" where
  "update_status [] trainjob = trainjob"
| "update_status (c # cs) trainjob =
     update_status cs
       (if condition.type c = TRAINJOB_COMPLETE \<and> condition.status c = ''True'' then
          trainjob\<lparr>TrainJob.status := condition.type c\<rparr>
        else if condition.type c = TRAINJOB_FAILED \<and> condition.status c = ''True'' then
          trainjob\<lparr>TrainJob.status := condition.type c\<rparr>
        else trainjob)"

text \<open>
  \<^verbatim>\<open>sum(1 for step in trainjob.steps
       if step.name.startswith(constants.NODE) and step.status == constants.TRAINJOB_RUNNING)\<close>
\<close>

definition num_running_nodes :: "Step list \<Rightarrow> int" where
  "num_running_nodes ss =
     int (length (filter (\<lambda>step. startswith (Step.name step) NODE
                            \<and> Step.status step = Some TRAINJOB_RUNNING) ss))"

text \<open>
  The last part of \<^verbatim>\<open>__get_trainjob_from_crd\<close>: the status comes from the conditions
  when the resource has a non-empty list of them, and from the running nodes otherwise.
\<close>

definition set_status :: "TrainJobStatus option \<Rightarrow> TrainJob \<Rightarrow> TrainJob" where
  "set_status st trainjob =
     (case (case st of None \<Rightarrow> None | Some s \<Rightarrow> conditions s) of
        Some (c # cs) \<Rightarrow> update_status (c # cs) trainjob
      | _ \<Rightarrow>
          if TrainJob.num_nodes trainjob = num_running_nodes (steps trainjob) then
            trainjob\<lparr>TrainJob.status := TRAINJOB_RUNNING\<rparr>
          else trainjob)"

text \<open>
  The \<^verbatim>\<open>types.TrainJob(...)\<close> that \<^verbatim>\<open>__get_trainjob_from_crd\<close> constructs: no
  steps yet, the number of nodes of the TrainJob when it is set and not zero and of the
  Runtime otherwise, and the default status.
\<close>

definition new_trainjob :: "string \<Rightarrow> nat \<Rightarrow> Runtime \<Rightarrow> TrainJobSpec \<Rightarrow> TrainJob" where
  "new_trainjob n ts rt sp =
     \<lparr>TrainJob.name = n,
      creation_timestamp = ts,
      runtime = rt,
      steps = [],
      num_nodes =
        (case TrainJobSpec.trainer sp of
           None \<Rightarrow> RuntimeTrainer.num_nodes (Runtime.trainer rt)
         | Some t \<Rightarrow>
             (case Trainer.num_nodes t of
                None \<Rightarrow> RuntimeTrainer.num_nodes (Runtime.trainer rt)
              | Some k \<Rightarrow> if k \<noteq> 0 then k else RuntimeTrainer.num_nodes (Runtime.trainer rt))),
      status = TRAINJOB_CREATED\<rparr>"

text \<open>\<^verbatim>\<open>TrainerClient.__get_trainjob_from_crd\<close>\<close>

definition get_trainjob_from_crd ::
  "('rj, 'mlp, 'spec) utils \<Rightarrow> ('rj, 'mlp, 'spec) responses \<Rightarrow> TrainJob_crd option
     \<Rightarrow> TrainJob io" where
  "get_trainjob_from_crd u r trainjob_crd =
     (case trainjob_crd of
        None \<Rightarrow> raise_io AttributeError
      | Some crd \<Rightarrow>
          (case TrainJob_crd.metadata crd of
             None \<Rightarrow> raise_io Exception
           | Some m \<Rightarrow>
               (case (ObjectMeta.name m, namespace m, TrainJob_crd.spec crd,
                      ObjectMeta.creation_timestamp m) of
                  (Some n, Some ns, Some sp, Some ts) \<Rightarrow>
                    if n = [] \<or> ns = [] then raise_io Exception
                    else
                      (case runtime_ref sp of
                         None \<Rightarrow> raise_io AttributeError
                       | Some ref \<Rightarrow>
                           bind_io (get_runtime u r (RuntimeRef.name ref))
                             (\<lambda>rt.
                                let trainjob = new_trainjob n ts rt sp in
                                  bind_io (list_steps u r (runtime trainjob) ns n)
                                    (\<lambda>listed.
                                       case listed of
                                         None \<Rightarrow> return_io trainjob
                                       | Some ss \<Rightarrow>
                                           return_io
                                             (set_status (TrainJob_crd.status crd)
                                                (trainjob\<lparr>steps := ss\<rparr>)))))
                | _ \<Rightarrow> raise_io Exception)))"

text \<open>\<^verbatim>\<open>TrainerClient.get_job\<close>: the conversion runs outside the \<^verbatim>\<open>try\<close>.\<close>

definition get_job ::
  "('rj, 'mlp, 'spec) utils \<Rightarrow> ('rj, 'mlp, 'spec) responses \<Rightarrow> string \<Rightarrow> TrainJob io" where
  "get_job u r n =
     bind_io (try_except (request (GetTrainJob n) (get_namespaced_custom_object r)) api_handlers)
       (\<lambda>trainjob. get_trainjob_from_crd u r trainjob)"

section \<open>The node step helper, from the specification\<close>

text \<open>
  Modelled from the spec: the fixed table from Pod phase to step status of the Step
  Classifier (Pending to Pending, Running to Running, Succeeded to Complete, Failed to
  Failed, Unknown to Unknown), which the absent module
  \<^verbatim>\<open>kubeflow.trainer.utils\<close> applies. A Pod without a status or a phase gives a
  step without a status; a phase outside the table is kept.
\<close>

definition step_status :: "PodStatus option \<Rightarrow> string option" where
  "step_status pod_status =
     (case pod_status of
        None \<Rightarrow> None
      | Some st \<Rightarrow>
          (case phase st of
             None \<Rightarrow> None
           | Some p \<Rightarrow> Some (if p = ''Succeeded'' then ''Complete'' else p)))"

text \<open>
  Modelled from the spec: \<^verbatim>\<open>utils.get_trainjob_node_step\<close>, absent from the client's
  sources. A Pod whose role is launcher or node classifies as a compute step whose name
  is the role, a dash and the replica index. The device metadata that the step takes
  from the Runtime is not read by the client and is left out of the record.
\<close>

definition spec_get_trainjob_node_step ::
  "string \<Rightarrow> 'spec \<Rightarrow> PodStatus option \<Rightarrow> Runtime \<Rightarrow> string \<Rightarrow> int \<Rightarrow> error + Step" where
  "spec_get_trainjob_node_step pname pod_spec pod_status rt role job_index =
     Inr \<lparr>Step.name = role @ ''-'' @ str_int job_index,
          status = step_status pod_status,
          pod_name = pname\<rparr>"

section \<open>Waiting for a status\<close>

text \<open>
  \<^verbatim>\<open>watch.Watch\<close>: the client creates it, iterates its stream and stops it.
  \<open>stopped\<close> is its \<^verbatim>\<open>_stop\<close> flag, set by \<^verbatim>\<open>stop()\<close>.
\<close>

record Watch =
  stopped :: bool

definition stop :: "Watch \<Rightarrow> Watch" where
  "stop w = w\<lparr>stopped := True\<rparr>"

text \<open>
  What the watch on the TrainJob's Pods delivers: one entry per event, holding what the
  cluster answers to the \<^verbatim>\<open>get_job\<close> made for that event (the event itself is not
  read), and how the stream ends: by itself, after \<^verbatim>\<open>timeout_seconds\<close>, or by
  raising.
\<close>

datatype stream_end = StreamEnd | StreamRaises error

record ('rj, 'mlp, 'spec) pod_stream =
  events :: "('rj, 'mlp, 'spec) responses list"
  ending :: stream_end

definition job_statuses :: "string set" where
  "job_statuses = {TRAINJOB_CREATED, TRAINJOB_RUNNING, TRAINJOB_COMPLETE, TRAINJOB_FAILED}"

text \<open>
  The \<^verbatim>\<open>for event in w.stream(...)\<close> loop of \<^verbatim>\<open>wait_for_job_status\<close>.
  \<open>Some trainjob\<close> is \<^verbatim>\<open>return trainjob\<close>; \<open>None\<close> is the loop running to
  the end of the stream.
\<close>

fun watch_loop ::
  "('rj, 'mlp, 'spec) utils \<Rightarrow> string \<Rightarrow> string set \<Rightarrow> ('rj, 'mlp, 'spec) responses list
     \<Rightarrow> stream_end \<Rightarrow> TrainJob option io" where
  "watch_loop u n st [] e =
     (case e of StreamEnd \<Rightarrow> return_io None | StreamRaises err \<Rightarrow> raise_io err)"
| "watch_loop u n st (r # rs) e =
     bind_io (get_job u r n)
       (\<lambda>trainjob.
          if TRAINJOB_FAILED \<notin> st \<and> TrainJob.status trainjob = TRAINJOB_FAILED then
            raise_io RuntimeError
          else if TrainJob.status trainjob \<in> st then return_io (Some trainjob)
          else watch_loop u n st rs e)"

text \<open>
  \<^verbatim>\<open>except TimeoutError: raise TimeoutError(...)\<close>
  \<^verbatim>\<open>except Exception: raise RuntimeError(...)\<close>
\<close>

definition wait_handlers :: "error \<Rightarrow> error" where
  "wait_handlers e = (if e = TimeoutError then TimeoutError else RuntimeError)"

text \<open>
  \<^verbatim>\<open>TrainerClient.wait_for_job_status\<close>. The second component is the Watch at the end
  of the call: \<open>None\<close> when the call never created one. The \<^verbatim>\<open>finally\<close> clause
  stops the Watch after the \<^verbatim>\<open>try\<close> and its handlers, whatever they did.
\<close>

definition wait_for_job_status ::
  "('rj, 'mlp, 'spec) utils \<Rightarrow> ('rj, 'mlp, 'spec) pod_stream \<Rightarrow> string \<Rightarrow> string set \<Rightarrow> int
     \<Rightarrow> TrainJob io \<times> Watch option" where
  "wait_for_job_status u s n st timeout =
     (if \<not> st \<subseteq> job_statuses then (raise_io ValueError, None)
      else
        let w = \<lparr>stopped = False\<rparr>;
            tried =
              try_except
                (bind_io (request (WatchPods n timeout) (Inr ()))
                   (\<lambda>_. watch_loop u n st (events s) (ending s)))
                wait_handlers;
            w' = stop w
        in
          (bind_io tried
             (\<lambda>found.
                case found of
                  Some trainjob \<Rightarrow> return_io trainjob
                | None \<Rightarrow> raise_io TimeoutError),
           Some w'))"

section \<open>Reading the logs\<close>

text \<open>
  The first loop of \<^verbatim>\<open>get_job_logs\<close>: the Pod name of the last step that is not
  Pending and whose name is \<^verbatim>\<open>step\<close> or \<^verbatim>\<open>f"{step}-{node_rank}"\<close>.
\<close>

fun find_pod_name :: "Step list \<Rightarrow> string \<Rightarrow> int \<Rightarrow> string option \<Rightarrow> string option" where
  "find_pod_name [] step node_rank pn = pn"
| "find_pod_name (c # cs) step node_rank pn =
     find_pod_name cs step node_rank
       (if Step.status c \<noteq> Some POD_PENDING then
          (if Step.name c = step \<or> Step.name c = step @ ''-'' @ str_int node_rank then
             Some (pod_name c)
           else pn)
        else pn)"

text \<open>
  One \<^verbatim>\<open>log_queue.get(timeout=1)\<close> gives a log line, the value \<^verbatim>\<open>None\<close> that the
  reader thread puts when its stream has ended, or raises \<^verbatim>\<open>queue.Empty\<close> after the
  timeout. A queue of the pool is the list of what its successive \<^verbatim>\<open>get\<close>s give; once
  the list is used up nothing arrives any more and every \<^verbatim>\<open>get\<close> times out.
\<close>

datatype pull = Line string | Sentinel | Empty

record follow_state =
  queues :: "pull list list"
  finished :: "bool list"
  logs_dict :: "string \<rightharpoonup> string"
  stdout :: "string list"

text \<open>
  \<^verbatim>\<open>logs_dict[key] = logs_dict.get(key, "") + logline + "\n"\<close>
\<close>

definition append_line :: "string \<Rightarrow> (string \<rightharpoonup> string) \<Rightarrow> string \<Rightarrow> (string \<rightharpoonup> string)" where
  "append_line key d logline =
     d(key \<mapsto> (case d key of None \<Rightarrow> [] | Some v \<Rightarrow> v) @ logline @ [CHR 0x0A])"

text \<open>The line that \<^verbatim>\<open>print(f"[{step}-{node_rank}]: {logline}")\<close> writes.\<close>

definition printed :: "string \<Rightarrow> string \<Rightarrow> string" where
  "printed key logline = ''['' @ key @ '']: '' @ logline"

text \<open>
  \<^verbatim>\<open>for _ in range(k)\<close> on the queue at \<open>index\<close>: it ends at the sentinel, which marks
  the queue finished, at \<^verbatim>\<open>queue.Empty\<close>, or after \<open>k\<close> lines.
\<close>

fun pull_lines :: "nat \<Rightarrow> string \<Rightarrow> nat \<Rightarrow> follow_state \<Rightarrow> follow_state" where
  "pull_lines 0 key index s = s"
| "pull_lines (Suc k) key index s =
     (case queues s ! index of
        [] \<Rightarrow> s
      | Empty # q \<Rightarrow> s\<lparr>queues := (queues s)[index := q]\<rparr>
      | Sentinel # q \<Rightarrow>
          s\<lparr>queues := (queues s)[index := q], finished := (finished s)[index := True]\<rparr>
      | Line logline # q \<Rightarrow>
          pull_lines k key index
            (s\<lparr>queues := (queues s)[index := q],
               logs_dict := append_line key (logs_dict s) logline,
               stdout := stdout s @ [printed key logline]\<rparr>))"

text \<open>
  \<^verbatim>\<open>for index, log_queue in enumerate(log_queue_pool)\<close>: \<^verbatim>\<open>finished[index]\<close>
  raises IndexError when the pool is longer than \<^verbatim>\<open>finished\<close>.
\<close>

fun scan_pool :: "nat list \<Rightarrow> string \<Rightarrow> follow_state \<Rightarrow> error option \<times> follow_state" where
  "scan_pool [] key s = (None, s)"
| "scan_pool (index # rest) key s =
     (if list_all (\<lambda>b. b) (finished s) then (None, s)
      else if length (finished s) \<le> index then (Some IndexError, s)
      else if finished s ! index then scan_pool rest key s
      else scan_pool rest key (pull_lines 50 key index s))"

text \<open>\<^verbatim>\<open>while True\<close>: the loop is left only by \<^verbatim>\<open>return logs_dict\<close> or by raising.\<close>

partial_function (option) follow_logs ::
  "string \<Rightarrow> follow_state \<Rightarrow> (error option \<times> follow_state) option" where
  "follow_logs key s =
     (case scan_pool [0..<length (queues s)] key s of
        (Some e, s') \<Rightarrow> Some (Some e, s')
      | (None, s') \<Rightarrow>
          if list_all (\<lambda>b. b) (finished s') then Some (None, s') else follow_logs key s')"

declare follow_logs.simps [code]

text \<open>
  What a \<^verbatim>\<open>get_job_logs\<close> call meets: the answers to its \<^verbatim>\<open>get_job\<close>, the pool
  that \<^verbatim>\<open>utils.get_log_queue_pool(log_streams)\<close> returns for the log streams, and the
  answer to \<^verbatim>\<open>read_namespaced_pod_log\<close> for a Pod name and a container.
\<close>

record ('rj, 'mlp, 'spec) logs_env =
  job_responses :: "('rj, 'mlp, 'spec) responses"
  log_queue_pool :: "pull list list"
  read_namespaced_pod_log :: "string \<Rightarrow> string \<Rightarrow> error + string"

text \<open>\<^verbatim>\<open>except Exception: raise RuntimeError(...)\<close>\<close>

definition read_handlers :: "error \<Rightarrow> error" where
  "read_handlers e = RuntimeError"

text \<open>
  \<^verbatim>\<open>TrainerClient.get_job_logs\<close>: the calls made and the dictionary returned or the
  exception raised, and the lines printed. \<open>None\<close>: the call does not return.
  \<^verbatim>\<open>log_streams\<close> holds one stream, so \<^verbatim>\<open>finished\<close> has length one.
\<close>

definition get_job_logs ::
  "('rj, 'mlp, 'spec) utils \<Rightarrow> ('rj, 'mlp, 'spec) logs_env \<Rightarrow> string \<Rightarrow> bool \<Rightarrow> string \<Rightarrow> int
     \<Rightarrow> ((string \<rightharpoonup> string) io \<times> string list) option" where
  "get_job_logs u env n follow step node_rank =
     (case get_job u (job_responses env) n of
        (Inl e, t) \<Rightarrow> Some ((Inl e, t), [])
      | (Inr trainjob, t) \<Rightarrow>
          (case find_pod_name (steps trainjob) step node_rank None of
             None \<Rightarrow> Some ((Inr Map.empty, t), [])
           | Some pn \<Rightarrow>
               if follow \<and> step = NODE then
                 (case follow_logs (step @ ''-'' @ str_int node_rank)
                         \<lparr>queues = log_queue_pool env,
                          finished = replicate 1 False,
                          logs_dict = Map.empty,
                          stdout = []\<rparr> of
                    None \<Rightarrow> None
                  | Some (Some e, s) \<Rightarrow> Some ((Inl e, t @ [StreamPodLog pn NODE]), stdout s)
                  | Some (None, s) \<Rightarrow>
                      Some ((Inr (logs_dict s), t @ [StreamPodLog pn NODE]), stdout s))
               else
                 Some
                   (bind_io (Inr (), t)
                      (\<lambda>_.
                         try_except
                           (if step = DATASET_INITIALIZER then
                              bind_io
                                (request (ReadPodLog pn DATASET_INITIALIZER)
                                   (read_namespaced_pod_log env pn DATASET_INITIALIZER))
                                (\<lambda>text. return_io [DATASET_INITIALIZER \<mapsto> text])
                            else if step = MODEL_INITIALIZER then
                              bind_io
                                (request (ReadPodLog pn MODEL_INITIALIZER)
                                   (read_namespaced_pod_log env pn MODEL_INITIALIZER))
                                (\<lambda>text. return_io [MODEL_INITIALIZER \<mapsto> text])
                            else
                              bind_io
                                (request (ReadPodLog pn NODE) (read_namespaced_pod_log env pn NODE))
                                (\<lambda>text. return_io [step @ ''-'' @ str_int node_rank \<mapsto> text]))
                           read_handlers),
                    [])))"

section \<open>Notions used in the statements\<close>

text \<open>The cluster calls made by the \<^verbatim>\<open>get_job\<close>s for a list of events.\<close>

definition fetched_calls ::
  "('rj, 'mlp, 'spec) utils \<Rightarrow> string \<Rightarrow> ('rj, 'mlp, 'spec) responses list \<Rightarrow> api_call list" where
  "fetched_calls u n rs = concat (map (\<lambda>r. snd (get_job u r n)) rs)"

text \<open>
  An event after which \<^verbatim>\<open>wait_for_job_status\<close> goes on to the next one: the snapshot
  is fetched, it does not trigger the Failed abort and its status is not a target.
\<close>

definition keeps_waiting ::
  "('rj, 'mlp, 'spec) utils \<Rightarrow> string \<Rightarrow> string set \<Rightarrow> ('rj, 'mlp, 'spec) responses \<Rightarrow> bool" where
  "keeps_waiting u n st r =
     (case fst (get_job u r n) of
        Inl e \<Rightarrow> False
      | Inr trainjob \<Rightarrow>
          \<not> (TRAINJOB_FAILED \<notin> st \<and> TrainJob.status trainjob = TRAINJOB_FAILED)
          \<and> TrainJob.status trainjob \<notin> st)"

text \<open>The log lines among the results of a queue's \<^verbatim>\<open>get\<close>s, in order.\<close>

fun lines_of :: "pull list \<Rightarrow> string list" where
  "lines_of [] = []"
| "lines_of (Line l # q) = l # lines_of q"
| "lines_of (Sentinel # q) = lines_of q"
| "lines_of (Empty # q) = lines_of q"

text \<open>The lines joined into one text, each followed by a newline.\<close>

definition transcript :: "string list \<Rightarrow> string" where
  "transcript ls = concat (map (\<lambda>l. l @ [CHR 0x0A]) ls)"

text \<open>The calls that read a Pod's log.\<close>

fun is_log_read :: "api_call \<Rightarrow> bool" where
  "is_log_read (ReadPodLog p c) = True"
| "is_log_read (StreamPodLog p c) = True"
| "is_log_read _ = False"

text \<open>
  The results still to be pulled from the queues that are not finished, each queue counted
  with one more for the pull that finds it used up.
\<close>

definition pending_pulls :: "follow_state \<Rightarrow> nat" where
  "pending_pulls s =
     (\<Sum>i<length (queues s). if finished s ! i then 0 else Suc (length (queues s ! i)))"

text \<open>
  Every queue that is not yet finished still yields the sentinel, and \<^verbatim>\<open>finished\<close>
  has one entry per queue.
\<close>

definition sentinels_ahead :: "follow_state \<Rightarrow> bool" where
  "sentinels_ahead s =
     (length (finished s) = length (queues s)
      \<and> (\<forall>i<length (queues s). \<not> finished s ! i \<longrightarrow> Sentinel \<in> set (queues s ! i)))"

section \<open>Example inputs\<close>

text \<open>
  The helpers of the examples. The Pod spec of an example is the name of the Pod's
  container. The initializer helper, which is handed no role, names its step after that
  container (\<^verbatim>\<open>constants.py\<close> gives an initializer's ReplicatedJob and container the
  same name); the node helper is the one modelled from the specification; the trainer
  of every Runtime has one node.
\<close>

definition example_initializer_step ::
  "string \<Rightarrow> string \<Rightarrow> PodStatus option \<Rightarrow> error + Step" where
  "example_initializer_step pname container pod_status =
     Inr \<lparr>Step.name = container, status = step_status pod_status, pod_name = pname\<rparr>"

definition example_utils :: "(unit, unit, string) utils" where
  "example_utils =
     \<lparr>get_runtime_trainer = (\<lambda>rjs mlp. Inr \<lparr>RuntimeTrainer.num_nodes = 1\<rparr>),
      get_trainjob_initializer_step = example_initializer_step,
      get_trainjob_node_step = spec_get_trainjob_node_step\<rparr>"

text \<open>
  A cluster in which every request succeeds: a TrainJob \<open>job-abc\<close> in namespace
  \<open>default\<close> that declares \<open>k\<close> nodes and reports the conditions \<open>cs\<close>, a
  Runtime, and the Pods \<open>pods\<close>. A Pod is given by its name, its replicated-job label,
  the name of its container, its completion-index label and its phase.
\<close>

definition example_runtime_crd :: "string \<Rightarrow> (unit, unit) ClusterTrainingRuntime" where
  "example_runtime_crd n =
     \<lparr>ClusterTrainingRuntime.metadata =
        Some \<lparr>ObjectMeta.name = Some n, namespace = None, creation_timestamp = None, labels = None\<rparr>,
      spec =
        Some \<lparr>ml_policy = Some (),
              template = \<lparr>JobSetTemplateSpec.spec = Some \<lparr>replicated_jobs = Some [()]\<rparr>\<rparr>\<rparr>\<rparr>"

definition example_container_pod ::
  "string \<Rightarrow> string \<Rightarrow> string \<Rightarrow> string \<Rightarrow> string \<Rightarrow> string Pod" where
  "example_container_pod pname role container idx ph =
     \<lparr>Pod.metadata =
        Some \<lparr>ObjectMeta.name = Some pname, namespace = Some ''default'',
              creation_timestamp = Some 0,
              labels = Some [(JOBSET_RJOB_NAME_LABEL, role), (JOB_INDEX_LABEL, idx)]\<rparr>,
      spec = Some container,
      status = Some \<lparr>phase = Some ph\<rparr>\<rparr>"

definition example_pod :: "string \<Rightarrow> string \<Rightarrow> string \<Rightarrow> string \<Rightarrow> string Pod" where
  "example_pod pname role idx ph = example_container_pod pname role role idx ph"

definition example_crd :: "int \<Rightarrow> condition list option \<Rightarrow> TrainJob_crd" where
  "example_crd k cs =
     \<lparr>TrainJob_crd.metadata =
        Some \<lparr>ObjectMeta.name = Some ''job-abc'', namespace = Some ''default'',
              creation_timestamp = Some 0, labels = None\<rparr>,
      spec = Some \<lparr>runtime_ref = Some \<lparr>RuntimeRef.name = ''torch-distributed''\<rparr>,
                   trainer = Some \<lparr>Trainer.num_nodes = Some k\<rparr>\<rparr>,
      status = Some \<lparr>conditions = cs\<rparr>\<rparr>"

definition example_responses ::
  "int \<Rightarrow> condition list option \<Rightarrow> string Pod list \<Rightarrow> (unit, unit, string) responses" where
  "example_responses k cs pods =
     \<lparr>get_namespaced_custom_object = Inr (Some (example_crd k cs)),
      get_cluster_custom_object = (\<lambda>n. Inr (Some (example_runtime_crd n))),
      list_namespaced_pod = Inr (Some pods)\<rparr>"

definition example_nodes :: "string \<Rightarrow> string \<Rightarrow> string Pod list" where
  "example_nodes ph0 ph1 =
     [example_pod ''job-abc-node-0-0'' NODE ''0'' ph0,
      example_pod ''job-abc-node-0-1'' NODE ''1'' ph1]"

definition example_steps :: "string \<Rightarrow> string \<Rightarrow> Step list" where
  "example_steps st0 st1 =
     [\<lparr>Step.name = ''node-0'', status = Some st0, pod_name = ''job-abc-node-0-0''\<rparr>,
      \<lparr>Step.name = ''node-1'', status = Some st1, pod_name = ''job-abc-node-0-1''\<rparr>]"

definition example_trainjob :: "Step list \<Rightarrow> string \<Rightarrow> TrainJob" where
  "example_trainjob ss st =
     \<lparr>TrainJob.name = ''job-abc'', creation_timestamp = 0,
      runtime = \<lparr>Runtime.name = ''torch-distributed'',
                  trainer = \<lparr>RuntimeTrainer.num_nodes = 1\<rparr>\<rparr>,
      steps = ss, num_nodes = 2, status = st\<rparr>"

definition example_calls :: "api_call list" where
  "example_calls =
     [GetTrainJob ''job-abc'', GetRuntime ''torch-distributed'', ListPods ''default'' ''job-abc'']"

definition example_stream :: "(unit, unit, string) responses list \<Rightarrow> (unit, unit, string) pod_stream" where
  "example_stream rs = \<lparr>events = rs, ending = StreamEnd\<rparr>"

text \<open>What a \<^verbatim>\<open>get_job_logs\<close> call meets in the example cluster, for a given pool.\<close>

definition example_logs_env ::
  "(unit, unit, string) responses \<Rightarrow> pull list list \<Rightarrow> (unit, unit, string) logs_env" where
  "example_logs_env r pool =
     \<lparr>job_responses = r, log_queue_pool = pool,
      read_namespaced_pod_log = (\<lambda>p c. Inr (''log of '' @ p @ ''/'' @ c))\<rparr>"

text \<open>The follow loop at its start, with two queues.\<close>

definition example_follow_state :: follow_state where
  "example_follow_state =
     \<lparr>queues = [[Line ''a1'', Empty, Line ''a2'', Sentinel], [Empty, Line ''b1'', Sentinel]],
      finished = [False, False],
      logs_dict = Map.empty,
      stdout = []\<rparr>"

text \<open>The follow loop at its start, with the one queue of a call.\<close>

definition example_single_state :: follow_state where
  "example_single_state =
     \<lparr>queues = [[Empty, Line ''b1''] @ Sentinel # []],
      finished = [False],
      logs_dict = Map.empty,
      stdout = []\<rparr>"

section \<open>Properties of the computations\<close>

lemmas io_defs =
  return_io_def raise_io_def lift_io_def request_def bind_io_def try_except_def

lemmas example_defs =
  example_utils_def example_initializer_step_def example_runtime_crd_def example_pod_def
  example_container_pod_def example_crd_def example_responses_def
  spec_get_trainjob_node_step_def step_status_def

lemma bind_io_simps:
  "bind_io (Inl e, t) f = (Inl e, t)"
  "bind_io (Inr x, t) f = (fst (f x), t @ snd (f x))"
  by (simp_all add: bind_io_def split: prod.splits)

lemma bind_io_InrD:
  assumes "bind_io m f = (Inr y, t)"
  shows "\<exists>x t1 t2. m = (Inr x, t1) \<and> f x = (Inr y, t2) \<and> t = t1 @ t2"
  using assms by (cases m) (auto simp: bind_io_def split: sum.splits prod.splits)

lemma try_except_InrD:
  assumes "try_except m h = (Inr y, t)"
  shows "m = (Inr y, t)"
  using assms by (cases m) (auto simp: try_except_def split: sum.splits)

lemma update_status_steps: "steps (update_status cs j) = steps j"
  by (induction cs arbitrary: j) simp_all

lemma update_status_num_nodes: "TrainJob.num_nodes (update_status cs j) = TrainJob.num_nodes j"
  by (induction cs arbitrary: j) simp_all

lemma update_status_append:
  "update_status (xs @ ys) j = update_status ys (update_status xs j)"
  by (induction xs arbitrary: j) simp_all

lemma update_status_range:
  "TrainJob.status (update_status cs j) \<in> {TrainJob.status j, TRAINJOB_COMPLETE, TRAINJOB_FAILED}"
proof (induction cs arbitrary: j)
  case Nil
  show ?case by simp
next
  case (Cons c cs)
  show ?case using Cons.IH [of "j\<lparr>TrainJob.status := condition.type c\<rparr>"] Cons.IH [of j]
    by auto
qed

lemma set_status_range:
  "TrainJob.status (set_status st j)
     \<in> {TrainJob.status j, TRAINJOB_RUNNING, TRAINJOB_COMPLETE, TRAINJOB_FAILED}"
proof -
  have "TrainJob.status (update_status cs j)
          \<in> {TrainJob.status j, TRAINJOB_RUNNING, TRAINJOB_COMPLETE, TRAINJOB_FAILED}" for cs
    using update_status_range [of cs j] by auto
  then show ?thesis
    unfolding set_status_def
    by (simp split: option.split list.split del: update_status.simps)
qed

lemma set_status_steps: "steps (set_status st j) = steps j"
  unfolding set_status_def
  by (simp split: option.split list.split add: update_status_steps del: update_status.simps)

lemma set_status_num_nodes: "TrainJob.num_nodes (set_status st j) = TrainJob.num_nodes j"
  unfolding set_status_def
  by (simp split: option.split list.split add: update_status_num_nodes del: update_status.simps)

text \<open>What a successful get_job has done.\<close>

lemma get_trainjob_from_crd_Inr:
  assumes "get_trainjob_from_crd u r (Some crd) = (Inr job, t)"
  obtains (no_pod_list) "list_namespaced_pod r = Inr None" "TrainJob.status job = TRAINJOB_CREATED"
  | (listed) j0 pods where
      "job = set_status (TrainJob_crd.status crd) j0"
      "TrainJob.status j0 = TRAINJOB_CREATED"
      "list_namespaced_pod r = Inr (Some pods)"
      "add_pod_steps u (runtime j0) pods [] = Inr (steps j0)"
proof -
  from assms obtain n ns sp ts rt listed t3 t4 where
    ls: "list_steps u r (runtime (new_trainjob n ts rt sp)) ns n = (Inr listed, t3)" and
    fin: "(case listed of
              None \<Rightarrow> return_io (new_trainjob n ts rt sp)
            | Some ss \<Rightarrow> return_io (set_status (TrainJob_crd.status crd)
                                     ((new_trainjob n ts rt sp)\<lparr>steps := ss\<rparr>)))
          = (Inr job, t4)"
    unfolding get_trainjob_from_crd_def
    by (auto simp: raise_io_def Let_def dest!: bind_io_InrD split: option.splits if_splits)
  from ls obtain pod_list t6 where
    lp: "list_namespaced_pod r = Inr pod_list" and
    cl: "(case pod_list of
            None \<Rightarrow> return_io None
          | Some items \<Rightarrow>
              (case add_pod_steps u (runtime (new_trainjob n ts rt sp)) items [] of
                 Inl e \<Rightarrow> raise_io e
               | Inr ss \<Rightarrow> return_io (Some ss))) = (Inr listed, t6)"
    unfolding list_steps_def
    by (auto dest!: try_except_InrD bind_io_InrD simp: request_def)
  show ?thesis
  proof (cases pod_list)
    case None
    with cl have "listed = None" by (simp add: return_io_def)
    with fin have "job = new_trainjob n ts rt sp" by (simp add: return_io_def)
    with None lp show ?thesis by (intro no_pod_list) (simp_all add: new_trainjob_def)
  next
    case (Some items)
    with cl obtain ss where
      ss: "add_pod_steps u (runtime (new_trainjob n ts rt sp)) items [] = Inr ss" and
      l: "listed = Some ss"
      by (auto simp: return_io_def raise_io_def split: sum.splits)
    let ?j0 = "(new_trainjob n ts rt sp)\<lparr>steps := ss\<rparr>"
    from fin l have "job = set_status (TrainJob_crd.status crd) ?j0"
      by (simp add: return_io_def)
    moreover have "TrainJob.status ?j0 = TRAINJOB_CREATED" by (simp add: new_trainjob_def)
    moreover have "add_pod_steps u (runtime ?j0) items [] = Inr (steps ?j0)"
      using ss by simp
    ultimately show ?thesis using lp Some by (intro listed [of ?j0 items]) simp_all
  qed
qed

lemma get_job_Inr:
  assumes "get_job u r n = (Inr job, t)"
  obtains (no_pod_list) crd where
      "get_namespaced_custom_object r = Inr (Some crd)"
      "list_namespaced_pod r = Inr None" "TrainJob.status job = TRAINJOB_CREATED"
  | (listed) crd j0 pods where
      "get_namespaced_custom_object r = Inr (Some crd)"
      "job = set_status (TrainJob_crd.status crd) j0"
      "TrainJob.status j0 = TRAINJOB_CREATED"
      "list_namespaced_pod r = Inr (Some pods)"
      "add_pod_steps u (runtime j0) pods [] = Inr (steps j0)"
proof -
  from assms obtain x t1 t2 where
    m: "try_except (request (GetTrainJob n) (get_namespaced_custom_object r)) api_handlers = (Inr x, t1)"
    and f: "get_trainjob_from_crd u r x = (Inr job, t2)"
    unfolding get_job_def by (blast dest: bind_io_InrD)
  from m have resp: "get_namespaced_custom_object r = Inr x"
    by (auto dest!: try_except_InrD simp: request_def)
  from f obtain crd where x: "x = Some crd"
    by (cases x) (auto simp: get_trainjob_from_crd_def raise_io_def)
  from f x have f': "get_trainjob_from_crd u r (Some crd) = (Inr job, t2)" by simp
  from f' show ?thesis
  proof (cases rule: get_trainjob_from_crd_Inr)
    case no_pod_list
    then show ?thesis using resp x by (intro that(1) [of crd]) simp_all
  next
    case (listed j0 pods)
    then show ?thesis using resp x by (intro that(2) [of crd j0 pods]) simp_all
  qed
qed

lemma get_job_status_range:
  assumes "get_job u r n = (Inr job, t)"
  shows "TrainJob.status job \<in> {TRAINJOB_CREATED, TRAINJOB_RUNNING, TRAINJOB_COMPLETE, TRAINJOB_FAILED}"
  using assms
proof (cases rule: get_job_Inr)
  case (no_pod_list crd)
  then show ?thesis by simp
next
  case (listed crd j0 pods)
  then show ?thesis using set_status_range [of "TrainJob_crd.status crd" j0] by auto
qed

lemma update_status_keeps_complete:
  assumes "TrainJob.status j = TRAINJOB_COMPLETE"
    and "\<forall>d\<in>set cs. \<not> (condition.type d = TRAINJOB_FAILED \<and> condition.status d = ''True'')"
  shows "TrainJob.status (update_status cs j) = TRAINJOB_COMPLETE"
  using assms by (induction cs arbitrary: j) auto

lemma update_status_keeps_failed:
  assumes "TrainJob.status j = TRAINJOB_FAILED"
    and "\<forall>d\<in>set cs. \<not> (condition.type d = TRAINJOB_COMPLETE \<and> condition.status d = ''True'')"
  shows "TrainJob.status (update_status cs j) = TRAINJOB_FAILED"
  using assms by (induction cs arbitrary: j) auto

lemma update_status_last_complete:
  assumes "condition.type c = TRAINJOB_COMPLETE" "condition.status c = ''True''"
    and "\<forall>d\<in>set post. \<not> (condition.type d = TRAINJOB_FAILED \<and> condition.status d = ''True'')"
  shows "TrainJob.status (update_status (pre @ c # post) j) = TRAINJOB_COMPLETE"
  using assms by (simp add: update_status_append update_status_keeps_complete)

lemma update_status_last_failed:
  assumes "condition.type c = TRAINJOB_FAILED" "condition.status c = ''True''"
    and "\<forall>d\<in>set post. \<not> (condition.type d = TRAINJOB_COMPLETE \<and> condition.status d = ''True'')"
  shows "TrainJob.status (update_status (pre @ c # post) j) = TRAINJOB_FAILED"
  using assms by (simp add: update_status_append update_status_keeps_failed)

lemma set_status_conditions:
  assumes "st = Some s" "conditions s = Some cs" "cs \<noteq> []"
  shows "set_status st j = update_status cs j"
  using assms by (cases cs) (simp_all add: set_status_def)

lemma watch_loop_waiting:
  assumes "list_all (keeps_waiting u n st) pre"
  shows "watch_loop u n st (pre @ rs) e
           = (fst (watch_loop u n st rs e), fetched_calls u n pre @ snd (watch_loop u n st rs e))"
  using assms
proof (induction pre)
  case Nil
  show ?case by (simp add: fetched_calls_def)
next
  case (Cons r pre)
  from Cons.prems obtain j t where g: "get_job u r n = (Inr j, t)"
    and nf: "\<not> (TRAINJOB_FAILED \<notin> st \<and> TrainJob.status j = TRAINJOB_FAILED)"
    and nm: "TrainJob.status j \<notin> st"
    by (cases "get_job u r n") (auto simp: keeps_waiting_def split: sum.splits)
  from Cons have IH: "watch_loop u n st (pre @ rs) e
           = (fst (watch_loop u n st rs e), fetched_calls u n pre @ snd (watch_loop u n st rs e))"
    by simp
  show ?case using g nf nm
    by (auto simp add: bind_io_simps IH fetched_calls_def)
qed

lemma watch_loop_failed:
  assumes "get_job u r n = (Inr j, t)" "TRAINJOB_FAILED \<notin> st" "TrainJob.status j = TRAINJOB_FAILED"
  shows "watch_loop u n st (r # rs) e = (Inl RuntimeError, t)"
  using assms by (simp add: bind_io_simps raise_io_def)

lemma watch_loop_Some:
  assumes "watch_loop u n st rs e = (Inr (Some job), t)"
  shows "\<exists>r\<in>set rs. \<exists>t'. get_job u r n = (Inr job, t') \<and> TrainJob.status job \<in> st"
  using assms
proof (induction rs arbitrary: t)
  case Nil
  then show ?case by (simp add: return_io_def raise_io_def split: stream_end.splits)
next
  case (Cons r rs)
  from Cons.prems obtain j t1 t2 where g: "get_job u r n = (Inr j, t1)"
    and k: "(if TRAINJOB_FAILED \<notin> st \<and> TrainJob.status j = TRAINJOB_FAILED then raise_io RuntimeError
             else if TrainJob.status j \<in> st then return_io (Some j)
             else watch_loop u n st rs e) = (Inr (Some job), t2)"
    by (auto dest!: bind_io_InrD)
  show ?case
  proof (cases "TrainJob.status j \<in> st")
    case True
    with k have "j = job" by (auto simp: raise_io_def return_io_def split: if_splits)
    with g True show ?thesis by auto
  next
    case False
    with k have "watch_loop u n st rs e = (Inr (Some job), t2)"
      by (auto simp: raise_io_def split: if_splits)
    from Cons.IH [OF this] show ?thesis by auto
  qed
qed

lemma wait_invalid:
  assumes "\<not> st \<subseteq> job_statuses"
  shows "wait_for_job_status u s n st timeout = ((Inl ValueError, []), None)"
  using assms by (simp add: wait_for_job_status_def raise_io_def)

lemma wait_valid:
  assumes "st \<subseteq> job_statuses"
  shows "wait_for_job_status u s n st timeout =
     (case watch_loop u n st (events s) (ending s) of
        (Inl e, t) \<Rightarrow> ((Inl (wait_handlers e), WatchPods n timeout # t), Some \<lparr>stopped = True\<rparr>)
      | (Inr None, t) \<Rightarrow> ((Inl TimeoutError, WatchPods n timeout # t), Some \<lparr>stopped = True\<rparr>)
      | (Inr (Some trainjob), t) \<Rightarrow> ((Inr trainjob, WatchPods n timeout # t), Some \<lparr>stopped = True\<rparr>))"
  using assms
  by (cases "watch_loop u n st (events s) (ending s)")
     (auto simp: wait_for_job_status_def io_defs stop_def Let_def split: sum.splits option.splits)

lemma wait_not_ValueError:
  assumes "st \<subseteq> job_statuses"
  shows "fst (fst (wait_for_job_status u s n st timeout)) \<noteq> Inl ValueError"
  using assms
  by (cases "watch_loop u n st (events s) (ending s)")
     (auto simp: wait_valid wait_handlers_def split: sum.splits option.splits)

lemma wait_returns:
  assumes "fst (wait_for_job_status u s n st timeout) = (Inr job, t)"
  shows "\<exists>r\<in>set (events s). \<exists>t'. get_job u r n = (Inr job, t') \<and> TrainJob.status job \<in> st"
proof -
  have v: "st \<subseteq> job_statuses"
    using assms by (rule contrapos_pp) (simp add: wait_invalid)
  obtain x t0 where w: "watch_loop u n st (events s) (ending s) = (x, t0)"
    by (cases "watch_loop u n st (events s) (ending s)")
  with assms v have "x = Inr (Some job)"
    by (auto simp: wait_valid split: sum.splits option.splits)
  with w have "watch_loop u n st (events s) (ending s) = (Inr (Some job), t0)" by simp
  then show ?thesis by (rule watch_loop_Some)
qed

lemma fold_append_line:
  "fold (\<lambda>l d. append_line key d l) ls d =
     (if ls = [] then d
      else d(key \<mapsto> (case d key of None \<Rightarrow> [] | Some v \<Rightarrow> v) @ transcript ls))"
proof (induction ls arbitrary: d)
  case Nil
  show ?case by simp
next
  case (Cons l ls)
  have "fold (\<lambda>l d. append_line key d l) (l # ls) d
          = fold (\<lambda>l d. append_line key d l) ls (append_line key d l)"
    by simp
  also have "\<dots> = (if ls = [] then append_line key d l
                    else (append_line key d l)(key \<mapsto>
                      (case append_line key d l key of None \<Rightarrow> [] | Some v \<Rightarrow> v) @ transcript ls))"
    by (rule Cons.IH)
  also have "\<dots> = d(key \<mapsto> (case d key of None \<Rightarrow> [] | Some v \<Rightarrow> v) @ transcript (l # ls))"
    by (simp add: append_line_def transcript_def)
  finally show ?case by simp
qed

lemma pull_lines_single:
  assumes "Sentinel \<notin> set pre"
  shows "(pull_lines (Suc k) key 0
            \<lparr>queues = [pre @ Sentinel # rest], finished = [False], logs_dict = d, stdout = out\<rparr>
          = \<lparr>queues = [rest], finished = [True],
             logs_dict = fold (\<lambda>l d. append_line key d l) (lines_of pre) d,
             stdout = out @ map (printed key) (lines_of pre)\<rparr>)
       \<or> (\<exists>done pre'. length pre' < length pre \<and> Sentinel \<notin> set pre' \<and>
             lines_of pre = done @ lines_of pre' \<and>
             pull_lines (Suc k) key 0
               \<lparr>queues = [pre @ Sentinel # rest], finished = [False], logs_dict = d, stdout = out\<rparr>
             = \<lparr>queues = [pre' @ Sentinel # rest], finished = [False],
                logs_dict = fold (\<lambda>l d. append_line key d l) done d,
                stdout = out @ map (printed key) done\<rparr>)"
  using assms
proof (induction k arbitrary: pre d out)
  case 0
  show ?case
  proof (cases pre)
    case Nil
    then show ?thesis by simp
  next
    case (Cons p pre')
    then show ?thesis using 0
      by (cases p) (auto intro!: exI [of _ "[]"] exI [of _ pre'] exI [of _ "[l]" for l])
  qed
next
  case (Suc k)
  show ?case
  proof (cases pre)
    case Nil
    then show ?thesis by simp
  next
    case (Cons p pre')
    show ?thesis
    proof (cases p)
      case (Line l)
      from Suc.prems Cons have ns: "Sentinel \<notin> set pre'" by simp
      let ?d = "append_line key d l" and ?out = "out @ [printed key l]"
      have step: "pull_lines (Suc (Suc k)) key 0
            \<lparr>queues = [pre @ Sentinel # rest], finished = [False], logs_dict = d, stdout = out\<rparr>
          = pull_lines (Suc k) key 0
            \<lparr>queues = [pre' @ Sentinel # rest], finished = [False], logs_dict = ?d, stdout = ?out\<rparr>"
        using Cons Line by simp
      from Suc.IH [OF ns, of ?d ?out] show ?thesis
      proof
        assume a: "pull_lines (Suc k) key 0
            \<lparr>queues = [pre' @ Sentinel # rest], finished = [False], logs_dict = ?d, stdout = ?out\<rparr>
          = \<lparr>queues = [rest], finished = [True],
             logs_dict = fold (\<lambda>l d. append_line key d l) (lines_of pre') ?d,
             stdout = ?out @ map (printed key) (lines_of pre')\<rparr>"
        show ?thesis
          by (rule disjI1) (simp only: step a, simp add: Cons Line)
      next
        assume "\<exists>done pre''. length pre'' < length pre' \<and> Sentinel \<notin> set pre'' \<and>
             lines_of pre' = done @ lines_of pre'' \<and>
             pull_lines (Suc k) key 0
               \<lparr>queues = [pre' @ Sentinel # rest], finished = [False], logs_dict = ?d, stdout = ?out\<rparr>
             = \<lparr>queues = [pre'' @ Sentinel # rest], finished = [False],
                logs_dict = fold (\<lambda>l d. append_line key d l) done ?d,
                stdout = ?out @ map (printed key) done\<rparr>"
        then obtain dn pre'' where b: "length pre'' < length pre'" "Sentinel \<notin> set pre''"
          "lines_of pre' = dn @ lines_of pre''"
          "pull_lines (Suc k) key 0
               \<lparr>queues = [pre' @ Sentinel # rest], finished = [False], logs_dict = ?d, stdout = ?out\<rparr>
             = \<lparr>queues = [pre'' @ Sentinel # rest], finished = [False],
                logs_dict = fold (\<lambda>l d. append_line key d l) dn ?d,
                stdout = ?out @ map (printed key) dn\<rparr>"
          by blast
        show ?thesis
          apply (rule disjI2)
          apply (rule exI [of _ "l # dn"], rule exI [of _ pre''])
          apply (simp only: step b(4))
          using b(1-3) Cons Line apply simp
          done
      qed
    next
      case Sentinel
      with Suc.prems Cons show ?thesis by simp
    next
      case Empty
      with Suc.prems Cons show ?thesis
        by (auto intro!: exI [of _ "[]"] exI [of _ pre'])
    qed
  qed
qed

lemma follow_logs_single:
  assumes "Sentinel \<notin> set pre"
  shows "follow_logs key
           \<lparr>queues = [pre @ Sentinel # rest], finished = [False], logs_dict = d, stdout = out\<rparr>
         = Some (None,
             \<lparr>queues = [rest], finished = [True],
              logs_dict = fold (\<lambda>l d. append_line key d l) (lines_of pre) d,
              stdout = out @ map (printed key) (lines_of pre)\<rparr>)"
  using assms
proof (induction pre arbitrary: d out rule: length_induct)
  case (1 pre)
  let ?s = "\<lparr>queues = [pre @ Sentinel # rest], finished = [False], logs_dict = d, stdout = out\<rparr>"
  have scan: "scan_pool [0..<length (queues ?s)] key ?s = (None, pull_lines 50 key 0 ?s)"
    by (simp del: pull_lines.simps)
  have fifty: "(50::nat) = Suc 49" by simp
  from pull_lines_single [OF "1.prems", of 49 key rest d out]
  show ?case
  proof
    assume a: "pull_lines (Suc 49) key 0 ?s
          = \<lparr>queues = [rest], finished = [True],
             logs_dict = fold (\<lambda>l d. append_line key d l) (lines_of pre) d,
             stdout = out @ map (printed key) (lines_of pre)\<rparr>"
    show ?thesis
      by (subst follow_logs.simps) (simp only: scan fifty a, simp)
  next
    assume "\<exists>done pre'. length pre' < length pre \<and> Sentinel \<notin> set pre' \<and>
             lines_of pre = done @ lines_of pre' \<and>
             pull_lines (Suc 49) key 0 ?s
             = \<lparr>queues = [pre' @ Sentinel # rest], finished = [False],
                logs_dict = fold (\<lambda>l d. append_line key d l) done d,
                stdout = out @ map (printed key) done\<rparr>"
    then obtain dn pre' where b: "length pre' < length pre" "Sentinel \<notin> set pre'"
      "lines_of pre = dn @ lines_of pre'"
      "pull_lines (Suc 49) key 0 ?s
             = \<lparr>queues = [pre' @ Sentinel # rest], finished = [False],
                logs_dict = fold (\<lambda>l d. append_line key d l) dn d,
                stdout = out @ map (printed key) dn\<rparr>"
      by blast
    from "1.IH" b(1,2) have IH: "follow_logs key
           \<lparr>queues = [pre' @ Sentinel # rest], finished = [False],
            logs_dict = fold (\<lambda>l d. append_line key d l) dn d,
            stdout = out @ map (printed key) dn\<rparr>
         = Some (None,
             \<lparr>queues = [rest], finished = [True],
              logs_dict = fold (\<lambda>l d. append_line key d l) (lines_of pre')
                            (fold (\<lambda>l d. append_line key d l) dn d),
              stdout = (out @ map (printed key) dn) @ map (printed key) (lines_of pre')\<rparr>)"
      by blast
    show ?thesis
      by (subst follow_logs.simps) (simp only: scan fifty b(4), simp add: IH b(3))
  qed
qed

lemma get_job_listed:
  assumes "get_job u r n = (Inr job, t)"
    and "get_namespaced_custom_object r = Inr (Some crd)"
    and "list_namespaced_pod r = Inr (Some pods)"
  obtains j0 where "job = set_status (TrainJob_crd.status crd) j0"
    and "TrainJob.status j0 = TRAINJOB_CREATED"
    and "add_pod_steps u (runtime j0) pods [] = Inr (steps j0)"
  using assms(1)
proof (cases rule: get_job_Inr)
  case (no_pod_list crd')
  with assms(3) show ?thesis by simp
next
  case (listed crd' j0 pods')
  with assms(2,3) have "crd' = crd" "pods' = pods" by simp_all
  with listed show ?thesis by (intro that [of j0]) simp_all
qed

lemma pull_lines_progress:
  assumes "sentinels_ahead s" and "i < length (queues s)" and "\<not> finished s ! i"
  shows "sentinels_ahead (pull_lines (Suc k) key i s)
       \<and> length (queues (pull_lines (Suc k) key i s)) = length (queues s)
       \<and> pending_pulls (pull_lines (Suc k) key i s) < pending_pulls s
       \<and> (\<forall>j<length (queues s). finished s ! j \<longrightarrow> finished (pull_lines (Suc k) key i s) ! j)"
  using assms
proof (induction k arbitrary: s)
  case 0
  from "0.prems" have len: "length (finished s) = length (queues s)"
    and sen: "Sentinel \<in> set (queues s ! i)"
    by (auto simp: sentinels_ahead_def)
  then obtain p q where pq: "queues s ! i = p # q" by (cases "queues s ! i") auto
  show ?case
  proof (cases p)
    case (Line l)
    let ?s' = "s\<lparr>queues := (queues s)[i := q],
               logs_dict := append_line key (logs_dict s) l,
               stdout := stdout s @ [printed key l]\<rparr>"
    have eq: "pull_lines (Suc 0) key i s = ?s'" using pq Line by simp
    have inv: "sentinels_ahead ?s'"
      using "0.prems" pq Line by (auto simp: sentinels_ahead_def nth_list_update)
    have dec: "pending_pulls ?s' < pending_pulls s"
      unfolding pending_pulls_def
      using "0.prems"(2,3) pq
      by (auto intro!: sum_strict_mono_ex1 simp: nth_list_update)
    show ?thesis unfolding eq using inv dec by simp
  next
    case Sentinel
    let ?s' = "s\<lparr>queues := (queues s)[i := q], finished := (finished s)[i := True]\<rparr>"
    have eq: "pull_lines (Suc 0) key i s = ?s'" using pq Sentinel by simp
    have inv: "sentinels_ahead ?s'"
      using "0.prems" pq by (auto simp: sentinels_ahead_def nth_list_update)
    have dec: "pending_pulls ?s' < pending_pulls s"
      unfolding pending_pulls_def
      using "0.prems"(2,3) pq len
      by (auto intro!: sum_strict_mono_ex1 simp: nth_list_update)
    show ?thesis unfolding eq using inv dec len "0.prems"(2) by (auto simp: nth_list_update)
  next
    case Empty
    let ?s' = "s\<lparr>queues := (queues s)[i := q]\<rparr>"
    have eq: "pull_lines (Suc 0) key i s = ?s'" using pq Empty by simp
    have inv: "sentinels_ahead ?s'"
      using "0.prems" pq Empty by (auto simp: sentinels_ahead_def nth_list_update)
    have dec: "pending_pulls ?s' < pending_pulls s"
      unfolding pending_pulls_def
      using "0.prems"(2,3) pq
      by (auto intro!: sum_strict_mono_ex1 simp: nth_list_update)
    show ?thesis unfolding eq using inv dec by simp
  qed
next
  case (Suc k)
  from Suc.prems have len: "length (finished s) = length (queues s)"
    and sen: "Sentinel \<in> set (queues s ! i)"
    by (auto simp: sentinels_ahead_def)
  then obtain p q where pq: "queues s ! i = p # q" by (cases "queues s ! i") auto
  show ?case
  proof (cases p)
    case (Line l)
    let ?s' = "s\<lparr>queues := (queues s)[i := q],
               logs_dict := append_line key (logs_dict s) l,
               stdout := stdout s @ [printed key l]\<rparr>"
    have eq: "pull_lines (Suc (Suc k)) key i s = pull_lines (Suc k) key i ?s'"
      using pq Line by simp
    have inv: "sentinels_ahead ?s'"
      using Suc.prems pq Line by (auto simp: sentinels_ahead_def nth_list_update)
    have dec: "pending_pulls ?s' < pending_pulls s"
      unfolding pending_pulls_def
      using Suc.prems(2,3) pq
      by (auto intro!: sum_strict_mono_ex1 simp: nth_list_update)
    have i': "i < length (queues ?s')" "\<not> finished ?s' ! i"
      using Suc.prems(2,3) by simp_all
    from Suc.IH [OF inv i'] dec show ?thesis unfolding eq by auto
  next
    case Sentinel
    let ?s' = "s\<lparr>queues := (queues s)[i := q], finished := (finished s)[i := True]\<rparr>"
    have eq: "pull_lines (Suc (Suc k)) key i s = ?s'" using pq Sentinel by simp
    have inv: "sentinels_ahead ?s'"
      using Suc.prems pq by (auto simp: sentinels_ahead_def nth_list_update)
    have dec: "pending_pulls ?s' < pending_pulls s"
      unfolding pending_pulls_def
      using Suc.prems(2,3) pq len
      by (auto intro!: sum_strict_mono_ex1 simp: nth_list_update)
    show ?thesis unfolding eq using inv dec len Suc.prems(2) by (auto simp: nth_list_update)
  next
    case Empty
    let ?s' = "s\<lparr>queues := (queues s)[i := q]\<rparr>"
    have eq: "pull_lines (Suc (Suc k)) key i s = ?s'" using pq Empty by simp
    have inv: "sentinels_ahead ?s'"
      using Suc.prems pq Empty by (auto simp: sentinels_ahead_def nth_list_update)
    have dec: "pending_pulls ?s' < pending_pulls s"
      unfolding pending_pulls_def
      using Suc.prems(2,3) pq
      by (auto intro!: sum_strict_mono_ex1 simp: nth_list_update)
    show ?thesis unfolding eq using inv dec by simp
  qed
qed

lemma scan_pool_progress:
  assumes "sentinels_ahead s" and "\<forall>i\<in>set is. i < length (queues s)"
  shows "\<exists>s'. scan_pool is key s = (None, s')
       \<and> sentinels_ahead s'
       \<and> length (queues s') = length (queues s)
       \<and> pending_pulls s' \<le> pending_pulls s
       \<and> ((\<exists>i\<in>set is. \<not> finished s ! i) \<longrightarrow> pending_pulls s' < pending_pulls s)
       \<and> (\<forall>j<length (queues s). finished s ! j \<longrightarrow> finished s' ! j)"
  using assms
proof (induction "is" arbitrary: s)
  case Nil
  then show ?case by simp
next
  case (Cons i rest)
  from Cons.prems have len: "length (finished s) = length (queues s)"
    and i: "i < length (queues s)"
    and rest: "\<forall>j\<in>set rest. j < length (queues s)"
    by (auto simp: sentinels_ahead_def)
  show ?case
  proof (cases "list_all (\<lambda>b. b) (finished s)")
    case True
    then have "\<forall>j<length (queues s). finished s ! j"
      using len by (simp add: list_all_length)
    with True Cons.prems show ?thesis by auto
  next
    case False
    show ?thesis
    proof (cases "finished s ! i")
      case True
      have sc: "scan_pool (i # rest) key s = scan_pool rest key s"
        using False True i len by simp
      from Cons.IH [OF Cons.prems(1) rest] True show ?thesis
        unfolding sc by auto
    next
      case nf: False
      let ?s1 = "pull_lines 50 key i s"
      have sc: "scan_pool (i # rest) key s = scan_pool rest key ?s1"
        using False nf i len by (simp del: pull_lines.simps)
      have fifty: "(50::nat) = Suc 49" by simp
      from pull_lines_progress [OF Cons.prems(1) i nf, of 49 key]
      have p: "sentinels_ahead ?s1" "length (queues ?s1) = length (queues s)"
        "pending_pulls ?s1 < pending_pulls s"
        "\<forall>j<length (queues s). finished s ! j \<longrightarrow> finished ?s1 ! j"
        unfolding fifty by simp_all
      from rest p(2) have rest1: "\<forall>j\<in>set rest. j < length (queues ?s1)" by simp
      from Cons.IH [OF p(1) rest1] obtain s' where
        s': "scan_pool rest key ?s1 = (None, s')" "sentinels_ahead s'"
          "length (queues s') = length (queues ?s1)"
          "pending_pulls s' \<le> pending_pulls ?s1"
          "\<forall>j<length (queues ?s1). finished ?s1 ! j \<longrightarrow> finished s' ! j"
        by blast
      show ?thesis
        unfolding sc using s' p by (intro exI [of _ s']) auto
    qed
  qed
qed

lemma follow_logs_terminates:
  assumes "sentinels_ahead s"
  shows "\<exists>s'. follow_logs key s = Some (None, s') \<and> list_all (\<lambda>b. b) (finished s')"
  using assms
proof (induction "pending_pulls s" arbitrary: s rule: less_induct)
  case less
  have "\<forall>i\<in>set [0..<length (queues s)]. i < length (queues s)" by simp
  from scan_pool_progress [OF less.prems this, of key] obtain s' where
    s': "scan_pool [0..<length (queues s)] key s = (None, s')" "sentinels_ahead s'"
      "length (queues s') = length (queues s)"
      "(\<exists>i\<in>set [0..<length (queues s)]. \<not> finished s ! i) \<longrightarrow> pending_pulls s' < pending_pulls s"
      "\<forall>j<length (queues s). finished s ! j \<longrightarrow> finished s' ! j"
    by blast
  show ?case
  proof (cases "list_all (\<lambda>b. b) (finished s')")
    case True
    with s'(1) show ?thesis by (subst follow_logs.simps) simp
  next
    case False
    from s'(2) have len': "length (finished s') = length (queues s')"
      by (simp add: sentinels_ahead_def)
    from False obtain j where j: "j < length (finished s')" "\<not> finished s' ! j"
      by (auto simp: list_all_length)
    with s'(3,5) len' have "j < length (queues s)" "\<not> finished s ! j" by auto
    with s'(4) have "pending_pulls s' < pending_pulls s" by auto
    from less.hyps [OF this s'(2)] obtain s'' where
      "follow_logs key s' = Some (None, s'')" "list_all (\<lambda>b. b) (finished s'')"
      by blast
    with s'(1) False show ?thesis by (subst follow_logs.simps) simp
  qed
qed

lemma find_pod_name_none:
  assumes "\<forall>c\<in>set ss. \<not> ((Step.name c = step \<or> Step.name c = step @ ''-'' @ str_int node_rank)
                         \<and> Step.status c \<noteq> Some POD_PENDING)"
  shows "find_pod_name ss step node_rank pn = pn"
  using assms by (induction ss arbitrary: pn) auto

lemma io_calls:
  "snd (return_io x) = []" "snd (raise_io e) = []" "snd (lift_io y) = []"
  "snd (request c resp) = [c]"
  "snd (try_except m h) = snd m"
  by (simp_all add: io_defs split: prod.splits sum.splits)

lemma bind_io_calls:
  assumes "\<forall>c\<in>set (snd m). P c" and "\<And>x. \<forall>c\<in>set (snd (f x)). P c"
  shows "\<forall>c\<in>set (snd (bind_io m f)). P c"
proof (cases m)
  case (Pair res t)
  show ?thesis
  proof (cases res)
    case (Inl e)
    with Pair assms(1) show ?thesis by (simp add: bind_io_simps)
  next
    case (Inr x)
    with Pair assms(1) assms(2) [of x] show ?thesis by (auto simp: bind_io_simps)
  qed
qed

lemma get_runtime_no_log_read: "\<forall>c\<in>set (snd (get_runtime u r n)). \<not> is_log_read c"
  unfolding get_runtime_def
  by (rule bind_io_calls) (simp_all add: io_calls)

lemma list_steps_no_log_read: "\<forall>c\<in>set (snd (list_steps u r rt ns n)). \<not> is_log_read c"
  unfolding list_steps_def io_calls(5)
  by (rule bind_io_calls) (simp_all add: io_calls split: option.split sum.split)

lemma get_trainjob_from_crd_no_log_read:
  "\<forall>c\<in>set (snd (get_trainjob_from_crd u r x)). \<not> is_log_read c"
proof -
  have fin: "\<forall>c\<in>set (snd (case listed of
                 None \<Rightarrow> return_io j
               | Some ss \<Rightarrow> return_io (set_status st (j\<lparr>steps := ss\<rparr>)))). \<not> is_log_read c"
    for listed :: "Step list option" and j st
    by (simp add: io_calls split: option.split)
  have inner: "\<forall>c\<in>set (snd (bind_io (get_runtime u r rn)
        (\<lambda>rt. bind_io (list_steps u r (runtime (new_trainjob n ts rt sp)) ns n)
           (\<lambda>listed. case listed of
                None \<Rightarrow> return_io (new_trainjob n ts rt sp)
              | Some ss \<Rightarrow> return_io (set_status st ((new_trainjob n ts rt sp)\<lparr>steps := ss\<rparr>)))))).
        \<not> is_log_read c" for rn n ts sp ns st
    by (intro bind_io_calls get_runtime_no_log_read list_steps_no_log_read fin)
  show ?thesis
    unfolding get_trainjob_from_crd_def Let_def
    using inner by (simp add: io_calls split: option.split prod.split)
qed

lemma get_job_no_log_read: "\<forall>c\<in>set (snd (get_job u r n)). \<not> is_log_read c"
  unfolding get_job_def
  by (rule bind_io_calls) (simp_all add: io_calls get_trainjob_from_crd_no_log_read)

lemma pull_lines_printed: "length (stdout (pull_lines k key i s)) \<le> length (stdout s) + k"
proof (induction k arbitrary: s)
  case 0
  show ?case by simp
next
  case (Suc k)
  show ?case
  proof (cases "queues s ! i")
    case Nil
    then show ?thesis by simp
  next
    case (Cons p q)
    show ?thesis
    proof (cases p)
      case (Line l)
      with Cons Suc.IH [of "s\<lparr>queues := (queues s)[i := q],
               logs_dict := append_line key (logs_dict s) l,
               stdout := stdout s @ [printed key l]\<rparr>"]
      show ?thesis by simp
    qed (use Cons in simp_all)
  qed
qed

lemma pull_lines_empty:
  assumes "queues s ! i = Empty # q"
  shows "pull_lines (Suc k) key i s = s\<lparr>queues := (queues s)[i := q]\<rparr>"
  using assms by simp

lemma follow_logs_returns_finished_aux:
  assumes "follow_logs key s = Some res"
  shows "fst res = None \<longrightarrow> list_all (\<lambda>b. b) (finished (snd res))"
proof (rule follow_logs.raw_induct
    [where P = "\<lambda>key s res. fst res = None \<longrightarrow> list_all (\<lambda>b. b) (finished (snd res))",
     OF _ assms])
  fix follow :: "string \<Rightarrow> follow_state \<Rightarrow> (error option \<times> follow_state) option"
    and key s res
  assume IH: "\<And>k s' y. follow k s' = Some y \<Longrightarrow>
                fst y = None \<longrightarrow> list_all (\<lambda>b. b) (finished (snd y))"
    and body: "(case scan_pool [0..<length (queues s)] key s of
        (None, s') \<Rightarrow>
          if list_all (\<lambda>b. b) (finished s') then Some (None, s') else follow key s'
      | (Some e, s') \<Rightarrow> Some (Some e, s')) = Some res"
  obtain e s' where sc: "scan_pool [0..<length (queues s)] key s = (e, s')"
    by (cases "scan_pool [0..<length (queues s)] key s")
  show "fst res = None \<longrightarrow> list_all (\<lambda>b. b) (finished (snd res))"
  proof (cases e)
    case (Some err)
    with body sc show ?thesis by auto
  next
    case None
    show ?thesis
    proof (cases "list_all (\<lambda>b. b) (finished s')")
      case True
      with body sc None show ?thesis by auto
    next
      case False
      with body sc None have "follow key s' = Some res" by simp
      then show ?thesis by (rule IH)
    qed
  qed
qed

lemma follow_logs_returns_finished:
  assumes "follow_logs key s = Some (None, s')"
  shows "list_all (\<lambda>b. b) (finished s')"
  using follow_logs_returns_finished_aux [OF assms] by simp

lemma get_job_logs_follow_single:
  assumes "get_job u (job_responses env) n = (Inr job, t)"
    and "find_pod_name (steps job) NODE node_rank None = Some pn"
    and "log_queue_pool env = [pre @ Sentinel # rest]"
    and "Sentinel \<notin> set pre"
  shows "get_job_logs u env n True NODE node_rank
       = Some ((Inr (if lines_of pre = [] then Map.empty
                     else [NODE @ ''-'' @ str_int node_rank \<mapsto> transcript (lines_of pre)]),
                t @ [StreamPodLog pn NODE]),
               map (printed (NODE @ ''-'' @ str_int node_rank)) (lines_of pre))"
proof -
  let ?key = "NODE @ ''-'' @ str_int node_rank"
  have f: "follow_logs ?key
             \<lparr>queues = [pre @ Sentinel # rest], finished = [False], logs_dict = Map.empty,
              stdout = []\<rparr>
           = Some (None,
               \<lparr>queues = [rest], finished = [True],
                logs_dict = fold (\<lambda>l d. append_line ?key d l) (lines_of pre) Map.empty,
                stdout = [] @ map (printed ?key) (lines_of pre)\<rparr>)"
    using assms(4) by (rule follow_logs_single)
  have d: "fold (\<lambda>l d. append_line ?key d l) (lines_of pre) Map.empty
             = (if lines_of pre = [] then Map.empty else [?key \<mapsto> transcript (lines_of pre)])"
    by (simp add: fold_append_line)
  show ?thesis
    unfolding get_job_logs_def
    using assms(1-3) by (simp add: f d del: append.simps)
qed

section \<open>The examples, evaluated\<close>

lemma example_get_job:
  "get_job example_utils (example_responses 2 cs (example_nodes ph0 ph1)) ''job-abc''
   = (Inr (set_status (Some \<lparr>conditions = cs\<rparr>)
            (example_trainjob
               (example_steps (if ph0 = ''Succeeded'' then ''Complete'' else ph0)
                              (if ph1 = ''Succeeded'' then ''Complete'' else ph1))
               ''Created'')),
      example_calls)"
  by (simp add: get_job_def get_trainjob_from_crd_def new_trainjob_def get_runtime_def
      get_runtime_from_crd_def list_steps_def add_pod_step_def getitem_def py_int_def strip_def
      is_space_def unsigned_val_def digit_val_def api_handlers_def str_int_def str_nat.simps
      digit_char_def io_defs example_defs example_nodes_def example_steps_def
      example_trainjob_def example_calls_def)

lemma example_created:
  "get_job example_utils (example_responses 2 None (example_nodes ''Running'' ''Pending'')) ''job-abc''
   = (Inr (example_trainjob (example_steps ''Running'' ''Pending'') ''Created''), example_calls)"
  by (simp add: example_get_job)
     (simp add: set_status_def num_running_nodes_def startswith_def example_trainjob_def
        example_steps_def)

lemma example_running:
  "get_job example_utils (example_responses 2 None (example_nodes ''Running'' ''Running'')) ''job-abc''
   = (Inr (example_trainjob (example_steps ''Running'' ''Running'') ''Running''), example_calls)"
  by (simp add: example_get_job)
     (simp add: set_status_def num_running_nodes_def startswith_def example_trainjob_def
        example_steps_def)

lemma example_conditions:
  "get_job example_utils (example_responses 2 (Some (c # cs)) (example_nodes ''Running'' ''Failed'')) ''job-abc''
   = (Inr (update_status (c # cs) (example_trainjob (example_steps ''Running'' ''Failed'') ''Created'')),
      example_calls)"
  by (simp add: example_get_job) (simp add: set_status_def)

lemma example_keeps_waiting:
  "keeps_waiting example_utils ''job-abc'' {''Complete''}
     (example_responses 2 None (example_nodes ''Running'' ''Pending''))"
  "keeps_waiting example_utils ''job-abc'' {''Complete''}
     (example_responses 2 None (example_nodes ''Running'' ''Running''))"
  by (simp_all add: keeps_waiting_def example_created example_running example_trainjob_def)

lemma example_failed:
  "get_job example_utils
     (example_responses 2 (Some [\<lparr>type = ''Failed'', status = ''True''\<rparr>])
        (example_nodes ''Running'' ''Failed'')) ''job-abc''
   = (Inr (example_trainjob (example_steps ''Running'' ''Failed'') ''Failed''), example_calls)"
  by (simp add: example_conditions example_trainjob_def)

lemma example_wait_failed:
  "wait_for_job_status example_utils
     \<lparr>events = [example_responses 2 None (example_nodes ''Running'' ''Pending''),
                example_responses 2 (Some [\<lparr>type = ''Failed'', status = ''True''\<rparr>])
                  (example_nodes ''Running'' ''Failed''),
                example_responses 2 None (example_nodes ''Running'' ''Running'')],
      ending = StreamRaises Exception\<rparr>
     ''job-abc'' {''Complete''} 600
   = ((Inl RuntimeError, WatchPods ''job-abc'' 600 # example_calls @ example_calls),
      Some \<lparr>stopped = True\<rparr>)"
  by (simp add: wait_valid job_statuses_def example_created example_failed
        bind_io_simps raise_io_def wait_handlers_def example_trainjob_def)

lemma example_complete_then_failed:
  "get_job example_utils
     (example_responses 2
        (Some [\<lparr>type = ''Complete'', status = ''True''\<rparr>, \<lparr>type = ''Failed'', status = ''True''\<rparr>])
        (example_nodes ''Running'' ''Running'')) ''job-abc''
   = (Inr (example_trainjob (example_steps ''Running'' ''Running'') ''Failed''), example_calls)"
  by (simp add: example_get_job) (simp add: set_status_def example_trainjob_def)

lemma example_failed_then_complete:
  "get_job example_utils
     (example_responses 2
        (Some [\<lparr>type = ''Failed'', status = ''True''\<rparr>, \<lparr>type = ''Complete'', status = ''True''\<rparr>])
        (example_nodes ''Running'' ''Failed'')) ''job-abc''
   = (Inr (example_trainjob (example_steps ''Running'' ''Failed'') ''Complete''), example_calls)"
  by (simp add: example_get_job) (simp add: set_status_def example_trainjob_def)

lemma example_suspended:
  "get_job example_utils
     (example_responses 2 (Some [\<lparr>type = ''Suspended'', status = ''False''\<rparr>])
        (example_nodes ''Running'' ''Running'')) ''job-abc''
   = (Inr (example_trainjob (example_steps ''Running'' ''Running'') ''Created''), example_calls)"
  by (simp add: example_get_job) (simp add: set_status_def example_trainjob_def)

lemma example_empty_conditions:
  "get_job example_utils
     (example_responses 2 (Some []) (example_nodes ''Running'' ''Running'')) ''job-abc''
   = (Inr (example_trainjob (example_steps ''Running'' ''Running'') ''Running''), example_calls)"
  by (simp add: example_get_job)
     (simp add: set_status_def num_running_nodes_def startswith_def example_trainjob_def
        example_steps_def)

lemma example_responses_fields:
  "get_namespaced_custom_object (example_responses k cs pods) = Inr (Some (example_crd k cs))"
  "list_namespaced_pod (example_responses k cs pods) = Inr (Some pods)"
  "TrainJob_crd.status (example_crd k cs) = Some \<lparr>conditions = cs\<rparr>"
  by (simp_all add: example_responses_def example_crd_def)

lemma example_keeps_waiting_created:
  "keeps_waiting example_utils ''job-abc'' {''Complete''}
     (example_responses 2 None (example_nodes ''Running'' ''Pending''))"
  by (simp add: keeps_waiting_def example_created example_trainjob_def)

lemma example_follow_state_run:
  "map_option (\<lambda>(e, s'). (e, queues s', finished s', stdout s', logs_dict s' ''node-0''))
     (follow_logs ''node-0'' example_follow_state)
   = Some (None, [[], []], [True, True],
       [''[node-0]: a1'', ''[node-0]: a2'', ''[node-0]: b1''],
       Some (transcript [''a1'', ''a2'', ''b1'']))"
  by code_simp

lemma example_pending_running:
  "get_job example_utils (example_responses 2 None (example_nodes ''Pending'' ''Running'')) ''job-abc''
   = (Inr (example_trainjob (example_steps ''Pending'' ''Running'') ''Created''), example_calls)"
  by (simp add: example_get_job)
     (simp add: set_status_def num_running_nodes_def startswith_def example_trainjob_def
        example_steps_def)

lemma example_str_int: "str_int 0 = ''0''"
  by (simp add: str_int_def str_nat.simps digit_char_def)

lemma example_wait_running:
  "wait_for_job_status example_utils
     (example_stream [example_responses 2 None (example_nodes ''Running'' ''Pending''),
                      example_responses 2 None (example_nodes ''Running'' ''Running'')])
     ''job-abc'' {''Running''} 600
   = ((Inr (example_trainjob (example_steps ''Running'' ''Running'') ''Running''),
       WatchPods ''job-abc'' 600 # example_calls @ example_calls),
      Some \<lparr>stopped = True\<rparr>)"
  by (simp add: wait_valid job_statuses_def example_stream_def example_created example_running
        bind_io_simps return_io_def example_trainjob_def)

lemma example_single_state_run:
  "follow_logs ''node-0'' example_single_state
   = Some (None,
       \<lparr>queues = [[]], finished = [True],
        logs_dict = [''node-0'' \<mapsto> transcript [''b1'']],
        stdout = [''[node-0]: b1'']\<rparr>)"
proof -
  have "Sentinel \<notin> set [Empty, Line ''b1'']" by simp
  from follow_logs_single [OF this, of "''node-0''" "[]" Map.empty "[]"]
  show ?thesis
    by (simp add: example_single_state_def append_line_def transcript_def printed_def)
qed

section \<open>The claims\<close>

text \<open>
  C1, as stated, fails: a TrainJob that reports Complete and then Failed, both with status
  true, gets the status Failed. The loop over the conditions lets the last one decide.
\<close>

theorem complete_first_counterexample:
  "get_job example_utils
     (example_responses 2
        (Some [\<lparr>type = ''Complete'', status = ''True''\<rparr>, \<lparr>type = ''Failed'', status = ''True''\<rparr>])
        (example_nodes ''Running'' ''Running'')) ''job-abc''
   = (Inr (example_trainjob (example_steps ''Running'' ''Running'') ''Failed''), example_calls)
   \<and> TrainJob.status (example_trainjob (example_steps ''Running'' ''Running'') ''Failed'')
       \<noteq> TRAINJOB_COMPLETE"
  by (simp add: example_complete_then_failed example_trainjob_def)

text \<open>
  C1, amended. When \<^verbatim>\<open>get_job\<close> returns a snapshot for which the Pods were listed, and
  the conditions of the TrainJob hold a Complete condition with status true that no Failed
  condition with status true follows, the snapshot has the status Complete, whatever the
  Pods' phases and the other conditions are.
\<close>

theorem complete_when_last:
  assumes "get_job u r n = (Inr job, t)"
    and "get_namespaced_custom_object r = Inr (Some crd)"
    and "list_namespaced_pod r = Inr (Some pods)"
    and "TrainJob_crd.status crd = Some s"
    and "conditions s = Some (pre @ c # post)"
    and "condition.type c = TRAINJOB_COMPLETE" and "condition.status c = ''True''"
    and "\<forall>d\<in>set post. \<not> (condition.type d = TRAINJOB_FAILED \<and> condition.status d = ''True'')"
  shows "TrainJob.status job = TRAINJOB_COMPLETE"
proof -
  from assms(1-3) obtain j0 where "job = set_status (TrainJob_crd.status crd) j0"
    by (rule get_job_listed)
  with assms(4,5) have "job = update_status (pre @ c # post) j0"
    by (simp add: set_status_conditions)
  then show ?thesis using assms(6-8) by (simp only: update_status_last_complete)
qed

theorem complete_when_last_witness:
  "get_job example_utils
     (example_responses 2
        (Some ([\<lparr>type = ''Failed'', status = ''True''\<rparr>] @ \<lparr>type = ''Complete'', status = ''True''\<rparr> # []))
        (example_nodes ''Running'' ''Failed'')) ''job-abc''
   = (Inr (example_trainjob (example_steps ''Running'' ''Failed'') ''Complete''), example_calls)
   \<and> TrainJob.status (example_trainjob (example_steps ''Running'' ''Failed'') ''Complete'')
       = TRAINJOB_COMPLETE"
proof -
  let ?pre = "[\<lparr>type = ''Failed'', status = ''True''\<rparr>]"
  let ?c = "\<lparr>type = ''Complete'', status = ''True''\<rparr>"
  let ?cs = "?pre @ ?c # []"
  let ?r = "example_responses 2 (Some ?cs) (example_nodes ''Running'' ''Failed'')"
  have g: "get_job example_utils ?r ''job-abc''
     = (Inr (example_trainjob (example_steps ''Running'' ''Failed'') ''Complete''), example_calls)"
    using example_failed_then_complete by simp
  have h2: "get_namespaced_custom_object ?r = Inr (Some (example_crd 2 (Some ?cs)))"
    and h3: "list_namespaced_pod ?r = Inr (Some (example_nodes ''Running'' ''Failed''))"
    and h4: "TrainJob_crd.status (example_crd 2 (Some ?cs)) = Some \<lparr>conditions = Some ?cs\<rparr>"
    and h5: "conditions \<lparr>conditions = Some ?cs\<rparr> = Some (?pre @ ?c # [])"
    and h6: "condition.type ?c = TRAINJOB_COMPLETE" and h7: "condition.status ?c = ''True''"
    and h8: "\<forall>d\<in>set []. \<not> (condition.type d = TRAINJOB_FAILED \<and> condition.status d = ''True'')"
    by (simp_all add: example_responses_fields)
  from complete_when_last [OF g h2 h3 h4 h5 h6 h7 h8] g show ?thesis by simp
qed

text \<open>
  C2. When \<^verbatim>\<open>get_job\<close> returns a snapshot for which the Pods were listed, and the
  TrainJob reports a Failed condition with status true (and, as the precedence of
  Complete over Failed has it, no Complete condition with status true), the snapshot has
  the status Failed. And when the targets of \<^verbatim>\<open>wait_for_job_status\<close> do not contain
  Failed and the snapshot fetched for an event has the status Failed, the call raises
  RuntimeError at that event: its last cluster calls are those of that fetch, and the
  rest of the stream is not read.
\<close>

theorem failed_reported_and_abort:
  "(get_job u r n = (Inr job, t)
      \<and> get_namespaced_custom_object r = Inr (Some crd)
      \<and> list_namespaced_pod r = Inr (Some pods)
      \<and> TrainJob_crd.status crd = Some cst
      \<and> conditions cst = Some cs
      \<and> c \<in> set cs \<and> condition.type c = TRAINJOB_FAILED \<and> condition.status c = ''True''
      \<and> (\<forall>d\<in>set cs. \<not> (condition.type d = TRAINJOB_COMPLETE \<and> condition.status d = ''True''))
    \<longrightarrow> TrainJob.status job = TRAINJOB_FAILED)
   \<and> (st \<subseteq> {TRAINJOB_CREATED, TRAINJOB_RUNNING, TRAINJOB_COMPLETE, TRAINJOB_FAILED}
      \<and> TRAINJOB_FAILED \<notin> st
      \<and> events s = before @ r' # after
      \<and> list_all (keeps_waiting u n st) before
      \<and> get_job u r' n = (Inr job', t')
      \<and> TrainJob.status job' = TRAINJOB_FAILED
    \<longrightarrow> wait_for_job_status u s n st timeout
          = ((Inl RuntimeError, WatchPods n timeout # fetched_calls u n before @ t'),
             Some \<lparr>stopped = True\<rparr>))"
proof (intro conjI impI; elim conjE)
  assume g: "get_job u r n = (Inr job, t)"
    and a: "get_namespaced_custom_object r = Inr (Some crd)"
      "list_namespaced_pod r = Inr (Some pods)"
    and b: "TrainJob_crd.status crd = Some cst" "conditions cst = Some cs"
    and c: "c \<in> set cs" "condition.type c = TRAINJOB_FAILED" "condition.status c = ''True''"
    and nc: "\<forall>d\<in>set cs. \<not> (condition.type d = TRAINJOB_COMPLETE \<and> condition.status d = ''True'')"
  from c(1) obtain pre post where cs: "cs = pre @ c # post"
    by (auto dest: split_list)
  with nc have post:
    "\<forall>d\<in>set post. \<not> (condition.type d = TRAINJOB_COMPLETE \<and> condition.status d = ''True'')"
    by simp
  from g a obtain j0 where "job = set_status (TrainJob_crd.status crd) j0"
    by (rule get_job_listed)
  with b cs have "job = update_status (pre @ c # post) j0"
    by (simp add: set_status_conditions)
  then show "TrainJob.status job = TRAINJOB_FAILED"
    using c(2,3) post by (simp only: update_status_last_failed)
next
  assume v: "st \<subseteq> {TRAINJOB_CREATED, TRAINJOB_RUNNING, TRAINJOB_COMPLETE, TRAINJOB_FAILED}"
    and nf: "TRAINJOB_FAILED \<notin> st"
    and ev: "events s = before @ r' # after"
    and w: "list_all (keeps_waiting u n st) before"
    and g: "get_job u r' n = (Inr job', t')"
    and f: "TrainJob.status job' = TRAINJOB_FAILED"
  from v have v': "st \<subseteq> job_statuses" by (simp add: job_statuses_def)
  have "watch_loop u n st (events s) (ending s) = (Inl RuntimeError, fetched_calls u n before @ t')"
    unfolding ev watch_loop_waiting [OF w] watch_loop_failed [OF g nf f] by simp
  with v' show "wait_for_job_status u s n st timeout
          = ((Inl RuntimeError, WatchPods n timeout # fetched_calls u n before @ t'),
             Some \<lparr>stopped = True\<rparr>)"
    by (simp add: wait_valid wait_handlers_def)
qed

theorem failed_reported_and_abort_witness:
  "get_job example_utils
     (example_responses 2 (Some [\<lparr>type = ''Failed'', status = ''True''\<rparr>])
        (example_nodes ''Running'' ''Failed'')) ''job-abc''
   = (Inr (example_trainjob (example_steps ''Running'' ''Failed'') ''Failed''), example_calls)
   \<and> TrainJob.status (example_trainjob (example_steps ''Running'' ''Failed'') ''Failed'')
       = TRAINJOB_FAILED
   \<and> wait_for_job_status example_utils
        \<lparr>events = [example_responses 2 None (example_nodes ''Running'' ''Pending'')]
                    @ example_responses 2 (Some [\<lparr>type = ''Failed'', status = ''True''\<rparr>])
                        (example_nodes ''Running'' ''Failed'')
                    # [example_responses 2 None (example_nodes ''Running'' ''Running'')],
         ending = StreamRaises Exception\<rparr>
        ''job-abc'' {''Complete''} 600
      = ((Inl RuntimeError,
          WatchPods ''job-abc'' 600
            # fetched_calls example_utils ''job-abc''
                [example_responses 2 None (example_nodes ''Running'' ''Pending'')]
            @ example_calls),
         Some \<lparr>stopped = True\<rparr>)"
proof -
  let ?c = "\<lparr>type = ''Failed'', status = ''True''\<rparr>"
  let ?cs = "[?c]"
  let ?before = "[example_responses 2 None (example_nodes ''Running'' ''Pending'')]"
  let ?r' = "example_responses 2 (Some ?cs) (example_nodes ''Running'' ''Failed'')"
  let ?after = "[example_responses 2 None (example_nodes ''Running'' ''Running'')]"
  let ?s = "\<lparr>events = ?before @ ?r' # ?after, ending = StreamRaises Exception\<rparr>"
  let ?job' = "example_trainjob (example_steps ''Running'' ''Failed'') ''Failed''"
  have g: "get_job example_utils ?r' ''job-abc'' = (Inr ?job', example_calls)"
    by (rule example_failed)
  have h1: "get_job example_utils ?r' ''job-abc'' = (Inr ?job', example_calls)
      \<and> get_namespaced_custom_object ?r' = Inr (Some (example_crd 2 (Some ?cs)))
      \<and> list_namespaced_pod ?r' = Inr (Some (example_nodes ''Running'' ''Failed''))
      \<and> TrainJob_crd.status (example_crd 2 (Some ?cs)) = Some \<lparr>conditions = Some ?cs\<rparr>
      \<and> conditions \<lparr>conditions = Some ?cs\<rparr> = Some ?cs
      \<and> ?c \<in> set ?cs \<and> condition.type ?c = TRAINJOB_FAILED \<and> condition.status ?c = ''True''
      \<and> (\<forall>d\<in>set ?cs. \<not> (condition.type d = TRAINJOB_COMPLETE \<and> condition.status d = ''True''))"
    using g by (simp add: example_responses_fields)
  have h2: "{''Complete''} \<subseteq> {TRAINJOB_CREATED, TRAINJOB_RUNNING, TRAINJOB_COMPLETE, TRAINJOB_FAILED}
      \<and> TRAINJOB_FAILED \<notin> {''Complete''}
      \<and> events ?s = ?before @ ?r' # ?after
      \<and> list_all (keeps_waiting example_utils ''job-abc'' {''Complete''}) ?before
      \<and> get_job example_utils ?r' ''job-abc'' = (Inr ?job', example_calls)
      \<and> TrainJob.status ?job' = TRAINJOB_FAILED"
    by (simp add: example_keeps_waiting_created example_failed example_trainjob_def)
  from failed_reported_and_abort
    [of example_utils ?r' "''job-abc''" ?job' example_calls "example_crd 2 (Some ?cs)"
        "example_nodes ''Running'' ''Failed''" "\<lparr>conditions = Some ?cs\<rparr>" ?cs ?c
        "{''Complete''}" ?s ?before ?r' ?after ?job' example_calls 600]
    h1 h2 g
  show ?thesis by blast
qed

text \<open>
  C3. The code misses the claim at a TrainJob whose only condition is not terminal:
  with the condition Suspended of status false and both of its two declared nodes
  Running, \<^verbatim>\<open>get_job\<close> returns the status Created, where the claim (and the comment at
  the count of the running nodes) gives Running. With an empty list of conditions and
  the same Pods it returns Running.
\<close>

theorem running_missed_with_suspended_condition:
  "get_job example_utils
     (example_responses 2 (Some [\<lparr>type = ''Suspended'', status = ''False''\<rparr>])
        (example_nodes ''Running'' ''Running'')) ''job-abc''
   = (Inr (example_trainjob (example_steps ''Running'' ''Running'') ''Created''), example_calls)
   \<and> num_running_nodes (steps (example_trainjob (example_steps ''Running'' ''Running'') ''Created''))
       = TrainJob.num_nodes (example_trainjob (example_steps ''Running'' ''Running'') ''Created'')
   \<and> TrainJob.status (example_trainjob (example_steps ''Running'' ''Running'') ''Created'')
       \<noteq> TRAINJOB_RUNNING
   \<and> get_job example_utils
       (example_responses 2 (Some []) (example_nodes ''Running'' ''Running'')) ''job-abc''
     = (Inr (example_trainjob (example_steps ''Running'' ''Running'') ''Running''), example_calls)"
  by (simp add: example_suspended example_empty_conditions)
     (simp add: example_trainjob_def example_steps_def num_running_nodes_def startswith_def)

text \<open>
  C4. \<^verbatim>\<open>wait_for_job_status\<close> raises ValueError exactly when the target set is not a
  subset of Created, Running, Complete and Failed; it then has made no cluster call and
  created no watch. The set of all four statuses passes the validation.
\<close>

theorem wait_rejects_invalid_targets:
  "(fst (fst (wait_for_job_status u s n st timeout)) = Inl ValueError)
     = (\<not> st \<subseteq> {TRAINJOB_CREATED, TRAINJOB_RUNNING, TRAINJOB_COMPLETE, TRAINJOB_FAILED})
   \<and> (\<not> st \<subseteq> {TRAINJOB_CREATED, TRAINJOB_RUNNING, TRAINJOB_COMPLETE, TRAINJOB_FAILED} \<longrightarrow>
        snd (fst (wait_for_job_status u s n st timeout)) = []
        \<and> snd (wait_for_job_status u s n st timeout) = None)
   \<and> fst (fst (wait_for_job_status u s n
              {TRAINJOB_CREATED, TRAINJOB_RUNNING, TRAINJOB_COMPLETE, TRAINJOB_FAILED} timeout))
        \<noteq> Inl ValueError"
proof -
  have a: "fst (fst (wait_for_job_status u s n st timeout)) = Inl ValueError"
    if "\<not> st \<subseteq> job_statuses" for st
    using that by (simp add: wait_invalid)
  have b: "fst (fst (wait_for_job_status u s n st timeout)) \<noteq> Inl ValueError"
    if "st \<subseteq> job_statuses" for st
    using that by (rule wait_not_ValueError)
  have c: "snd (fst (wait_for_job_status u s n st timeout)) = []
           \<and> snd (wait_for_job_status u s n st timeout) = None"
    if "\<not> st \<subseteq> job_statuses"
    using that by (simp add: wait_invalid)
  from a b c show ?thesis
    unfolding job_statuses_def by blast
qed

theorem wait_rejects_invalid_targets_witness:
  "\<not> {''Succeeded''} \<subseteq> {''Created'', ''Running'', ''Complete'', ''Failed''}
   \<and> wait_for_job_status example_utils
        (example_stream [example_responses 2 None (example_nodes ''Running'' ''Running'')])
        ''job-abc'' {''Succeeded''} 600
      = ((Inl ValueError, []), None)"
proof -
  have h: "\<not> {''Succeeded''} \<subseteq> {''Created'', ''Running'', ''Complete'', ''Failed''}"
    by simp
  from wait_rejects_invalid_targets
    [of example_utils
        "example_stream [example_responses 2 None (example_nodes ''Running'' ''Running'')]"
        "''job-abc''" "{''Succeeded''}" 600] h
  show ?thesis
    by (simp add: prod_eq_iff)
qed

text \<open>
  C5. When the watch stream ends by itself and no event's snapshot reached a target status
  or triggered the Failed abort, \<^verbatim>\<open>wait_for_job_status\<close> raises TimeoutError; it
  returns no Job.
\<close>

theorem wait_times_out_at_stream_end:
  assumes "st \<subseteq> {TRAINJOB_CREATED, TRAINJOB_RUNNING, TRAINJOB_COMPLETE, TRAINJOB_FAILED}"
    and "list_all (keeps_waiting u n st) (events s)"
    and "ending s = StreamEnd"
  shows "fst (fst (wait_for_job_status u s n st timeout)) = Inl TimeoutError"
proof -
  from assms(1) have v: "st \<subseteq> job_statuses" by (simp add: job_statuses_def)
  from watch_loop_waiting [OF assms(2), of "[]" "ending s"] assms(3)
  have "watch_loop u n st (events s) (ending s) = (Inr None, fetched_calls u n (events s))"
    by (simp add: return_io_def)
  with v show ?thesis by (simp add: wait_valid)
qed

theorem wait_times_out_at_stream_end_witness:
  "{''Complete''} \<subseteq> {''Created'', ''Running'', ''Complete'', ''Failed''}
   \<and> list_all (keeps_waiting example_utils ''job-abc'' {''Complete''})
       (events (example_stream [example_responses 2 None (example_nodes ''Running'' ''Pending''),
                                example_responses 2 None (example_nodes ''Running'' ''Running'')]))
   \<and> ending (example_stream [example_responses 2 None (example_nodes ''Running'' ''Pending''),
                             example_responses 2 None (example_nodes ''Running'' ''Running'')])
       = StreamEnd
   \<and> fst (fst (wait_for_job_status example_utils
        (example_stream [example_responses 2 None (example_nodes ''Running'' ''Pending''),
                         example_responses 2 None (example_nodes ''Running'' ''Running'')])
        ''job-abc'' {''Complete''} 600))
      = Inl TimeoutError"
proof -
  let ?s = "example_stream [example_responses 2 None (example_nodes ''Running'' ''Pending''),
                            example_responses 2 None (example_nodes ''Running'' ''Running'')]"
  have h1: "{''Complete''} \<subseteq> {''Created'', ''Running'', ''Complete'', ''Failed''}"
    by simp
  have h2: "list_all (keeps_waiting example_utils ''job-abc'' {''Complete''}) (events ?s)"
    by (simp add: example_stream_def example_keeps_waiting)
  have h3: "ending ?s = StreamEnd" by (simp add: example_stream_def)
  from wait_times_out_at_stream_end [OF h1 h2 h3, of 600] h1 h2 h3
  show ?thesis by simp
qed

text \<open>
  C6. Whatever the stream delivers and however the call ends (a matching snapshot, the
  Failed abort, the timeout or any exception of the stream or of \<^verbatim>\<open>get_job\<close>), a
  call that passed the validation of its targets leaves its watch stopped. A call that
  failed the validation never created a watch and made no cluster call.
\<close>

theorem wait_stops_watch:
  "snd (wait_for_job_status u s n st timeout)
     = (if st \<subseteq> {TRAINJOB_CREATED, TRAINJOB_RUNNING, TRAINJOB_COMPLETE, TRAINJOB_FAILED}
        then Some \<lparr>stopped = True\<rparr> else None)
   \<and> (snd (wait_for_job_status u s n st timeout) = None \<longrightarrow>
        snd (fst (wait_for_job_status u s n st timeout)) = [])"
proof (cases "st \<subseteq> job_statuses")
  case True
  then show ?thesis
    by (cases "watch_loop u n st (events s) (ending s)")
       (auto simp: wait_valid job_statuses_def split: sum.splits option.splits)
next
  case False
  then show ?thesis by (simp add: wait_invalid job_statuses_def)
qed

theorem wait_stops_watch_witness:
  "snd (wait_for_job_status example_utils
     \<lparr>events = [example_responses 2 None (example_nodes ''Running'' ''Pending''),
                example_responses 2 (Some [\<lparr>type = ''Failed'', status = ''True''\<rparr>])
                  (example_nodes ''Running'' ''Failed''),
                example_responses 2 None (example_nodes ''Running'' ''Running'')],
      ending = StreamRaises Exception\<rparr>
     ''job-abc'' {''Complete''} 600) = Some \<lparr>stopped = True\<rparr>
   \<and> snd (wait_for_job_status example_utils
        (example_stream [example_responses 2 None (example_nodes ''Running'' ''Running'')])
        ''job-abc'' {''Succeeded''} 600) = None
   \<and> snd (fst (wait_for_job_status example_utils
        (example_stream [example_responses 2 None (example_nodes ''Running'' ''Running'')])
        ''job-abc'' {''Succeeded''} 600)) = []"
  using wait_stops_watch
    [of example_utils
        "\<lparr>events = [example_responses 2 None (example_nodes ''Running'' ''Pending''),
                example_responses 2 (Some [\<lparr>type = ''Failed'', status = ''True''\<rparr>])
                  (example_nodes ''Running'' ''Failed''),
                example_responses 2 None (example_nodes ''Running'' ''Running'')],
          ending = StreamRaises Exception\<rparr>"
        "''job-abc''" "{''Complete''}" 600]
    wait_stops_watch
    [of example_utils
        "example_stream [example_responses 2 None (example_nodes ''Running'' ''Running'')]"
        "''job-abc''" "{''Succeeded''}" 600]
  by simp

text \<open>
  C7. Every Job snapshot that \<^verbatim>\<open>get_job\<close> produces, and hence every snapshot that
  \<^verbatim>\<open>wait_for_job_status\<close> returns, has a status that is one of Created, Running,
  Complete and Failed.
\<close>

theorem status_one_of_four:
  "(get_job u r n = (Inr job, t) \<longrightarrow>
      TrainJob.status job
        \<in> {TRAINJOB_CREATED, TRAINJOB_RUNNING, TRAINJOB_COMPLETE, TRAINJOB_FAILED})
   \<and> (fst (wait_for_job_status u s n st timeout) = (Inr job', t') \<longrightarrow>
      TrainJob.status job'
        \<in> {TRAINJOB_CREATED, TRAINJOB_RUNNING, TRAINJOB_COMPLETE, TRAINJOB_FAILED})"
proof (intro conjI impI)
  assume "get_job u r n = (Inr job, t)"
  then show "TrainJob.status job
        \<in> {TRAINJOB_CREATED, TRAINJOB_RUNNING, TRAINJOB_COMPLETE, TRAINJOB_FAILED}"
    by (rule get_job_status_range)
next
  assume "fst (wait_for_job_status u s n st timeout) = (Inr job', t')"
  then obtain r t'' where "get_job u r n = (Inr job', t'')"
    by (blast dest: wait_returns)
  then show "TrainJob.status job'
        \<in> {TRAINJOB_CREATED, TRAINJOB_RUNNING, TRAINJOB_COMPLETE, TRAINJOB_FAILED}"
    by (rule get_job_status_range)
qed

theorem status_one_of_four_witness:
  "get_job example_utils (example_responses 2 None (example_nodes ''Running'' ''Running'')) ''job-abc''
     = (Inr (example_trainjob (example_steps ''Running'' ''Running'') ''Running''), example_calls)
   \<and> fst (wait_for_job_status example_utils
       (example_stream [example_responses 2 None (example_nodes ''Running'' ''Pending''),
                        example_responses 2 None (example_nodes ''Running'' ''Running'')])
       ''job-abc'' {''Running''} 600)
     = (Inr (example_trainjob (example_steps ''Running'' ''Running'') ''Running''),
        WatchPods ''job-abc'' 600 # example_calls @ example_calls)
   \<and> TrainJob.status (example_trainjob (example_steps ''Running'' ''Running'') ''Running'')
       \<in> {''Created'', ''Running'', ''Complete'', ''Failed''}"
  using status_one_of_four
    [of example_utils "example_responses 2 None (example_nodes ''Running'' ''Running'')" "''job-abc''"
        "example_trainjob (example_steps ''Running'' ''Running'') ''Running''" example_calls
        "example_stream [example_responses 2 None (example_nodes ''Running'' ''Pending''),
                         example_responses 2 None (example_nodes ''Running'' ''Running'')]"
        "{''Running''}" 600
        "example_trainjob (example_steps ''Running'' ''Running'') ''Running''"
        "WatchPods ''job-abc'' 600 # example_calls @ example_calls"]
  by (simp add: example_running example_wait_running)




text \<open>
  C9. In follow mode, when the queue of the one log stream yields the sentinel after the
  results \<open>pre\<close>, \<^verbatim>\<open>get_job_logs\<close> returns, its dictionary maps the key of the node
  to all the lines of \<open>pre\<close> in their order, each followed by a newline (and is empty
  when there was no line), and the same lines were printed. The loop itself, for any number
  of queues that all still yield the sentinel, returns, and whenever it returns every
  queue is marked finished. One pass over a queue prints at most fifty lines, and a pull
  that times out ends the pass without marking the queue finished.
\<close>

theorem follow_returns_every_line:
  "(get_job u (job_responses env) n = (Inr job, t)
      \<and> find_pod_name (steps job) NODE node_rank None = Some pn
      \<and> log_queue_pool env = [pre @ Sentinel # rest]
      \<and> Sentinel \<notin> set pre
    \<longrightarrow> get_job_logs u env n True NODE node_rank
         = Some ((Inr (if lines_of pre = [] then Map.empty
                       else [NODE @ ''-'' @ str_int node_rank \<mapsto> transcript (lines_of pre)]),
                  t @ [StreamPodLog pn NODE]),
                 map (printed (NODE @ ''-'' @ str_int node_rank)) (lines_of pre)))
   \<and> (sentinels_ahead s \<longrightarrow>
        (\<exists>s'. follow_logs key s = Some (None, s') \<and> list_all (\<lambda>b. b) (finished s')))
   \<and> (follow_logs key s = Some (None, s'') \<longrightarrow> list_all (\<lambda>b. b) (finished s''))
   \<and> length (stdout (pull_lines 50 key i s)) \<le> length (stdout s) + 50
   \<and> (queues s ! i = Empty # q \<longrightarrow> pull_lines 50 key i s = s\<lparr>queues := (queues s)[i := q]\<rparr>)"
proof (intro conjI impI)
  assume "get_job u (job_responses env) n = (Inr job, t)
      \<and> find_pod_name (steps job) NODE node_rank None = Some pn
      \<and> log_queue_pool env = [pre @ Sentinel # rest]
      \<and> Sentinel \<notin> set pre"
  then show "get_job_logs u env n True NODE node_rank
         = Some ((Inr (if lines_of pre = [] then Map.empty
                       else [NODE @ ''-'' @ str_int node_rank \<mapsto> transcript (lines_of pre)]),
                  t @ [StreamPodLog pn NODE]),
                 map (printed (NODE @ ''-'' @ str_int node_rank)) (lines_of pre))"
    by (elim conjE) (rule get_job_logs_follow_single)
next
  assume "sentinels_ahead s"
  then show "\<exists>s'. follow_logs key s = Some (None, s') \<and> list_all (\<lambda>b. b) (finished s')"
    by (rule follow_logs_terminates)
next
  assume "follow_logs key s = Some (None, s'')"
  then show "list_all (\<lambda>b. b) (finished s'')" by (rule follow_logs_returns_finished)
next
  show "length (stdout (pull_lines 50 key i s)) \<le> length (stdout s) + 50"
    by (rule pull_lines_printed)
next
  assume "queues s ! i = Empty # q"
  then have "pull_lines (Suc 49) key i s = s\<lparr>queues := (queues s)[i := q]\<rparr>"
    by (rule pull_lines_empty)
  then show "pull_lines 50 key i s = s\<lparr>queues := (queues s)[i := q]\<rparr>" by simp
qed

theorem follow_returns_every_line_witness:
  "get_job_logs example_utils
     (example_logs_env (example_responses 2 None (example_nodes ''Running'' ''Running''))
        [[Line ''epoch 1'', Empty, Line ''epoch 2''] @ Sentinel # [Line ''late'']])
     ''job-abc'' True ''node'' 0
   = Some ((Inr [''node-0'' \<mapsto> transcript [''epoch 1'', ''epoch 2'']],
            example_calls @ [StreamPodLog ''job-abc-node-0-0'' ''node'']),
           [''[node-0]: epoch 1'', ''[node-0]: epoch 2''])
   \<and> sentinels_ahead example_follow_state
   \<and> map_option (\<lambda>(e, s'). (e, queues s', finished s', stdout s', logs_dict s' ''node-0''))
       (follow_logs ''node-0'' example_follow_state)
     = Some (None, [[], []], [True, True],
         [''[node-0]: a1'', ''[node-0]: a2'', ''[node-0]: b1''],
         Some (transcript [''a1'', ''a2'', ''b1'']))
   \<and> follow_logs ''node-0'' example_single_state
     = Some (None,
         \<lparr>queues = [[]], finished = [True],
          logs_dict = [''node-0'' \<mapsto> transcript [''b1'']],
          stdout = [''[node-0]: b1'']\<rparr>)
   \<and> queues example_follow_state ! 1 = Empty # [Line ''b1'', Sentinel]
   \<and> pull_lines 50 ''node-0'' 1 example_follow_state
     = example_follow_state
         \<lparr>queues := (queues example_follow_state)[1 := [Line ''b1'', Sentinel]]\<rparr>"
proof -
  let ?r = "example_responses 2 None (example_nodes ''Running'' ''Running'')"
  let ?pre = "[Line ''epoch 1'', Empty, Line ''epoch 2'']"
  let ?env = "example_logs_env ?r [?pre @ Sentinel # [Line ''late'']]"
  let ?job = "example_trainjob (example_steps ''Running'' ''Running'') ''Running''"
  let ?final = "\<lparr>queues = [[]], finished = [True],
          logs_dict = [''node-0'' \<mapsto> transcript [''b1'']],
          stdout = [''[node-0]: b1'']\<rparr>"
  have h1: "get_job example_utils (job_responses ?env) ''job-abc'' = (Inr ?job, example_calls)
      \<and> find_pod_name (steps ?job) NODE 0 None = Some ''job-abc-node-0-0''
      \<and> log_queue_pool ?env = [?pre @ Sentinel # [Line ''late'']]
      \<and> Sentinel \<notin> set ?pre"
    by (simp add: example_logs_env_def example_running example_trainjob_def example_steps_def
          example_str_int)
  have h2: "sentinels_ahead example_follow_state"
    by (simp add: sentinels_ahead_def example_follow_state_def less_Suc_eq)
  have h3: "queues example_follow_state ! 1 = Empty # [Line ''b1'', Sentinel]"
    by (simp add: example_follow_state_def)
  have h4: "follow_logs ''node-0'' example_single_state = Some (None, ?final)"
    by (rule example_single_state_run)
  have l: "lines_of ?pre = [''epoch 1'', ''epoch 2'']" by simp
  from follow_returns_every_line
    [of example_utils ?env "''job-abc''" ?job example_calls 0 "''job-abc-node-0-0''" ?pre
        "[Line ''late'']" example_follow_state "''node-0''" ?final 1 "[Line ''b1'', Sentinel]"]
    h1 h2 h3
  have a: "get_job_logs example_utils ?env ''job-abc'' True NODE 0
         = Some ((Inr (if lines_of ?pre = [] then Map.empty
                       else [NODE @ ''-'' @ str_int 0 \<mapsto> transcript (lines_of ?pre)]),
                  example_calls @ [StreamPodLog ''job-abc-node-0-0'' NODE]),
                 map (printed (NODE @ ''-'' @ str_int 0)) (lines_of ?pre))"
    and b: "pull_lines 50 ''node-0'' 1 example_follow_state
     = example_follow_state
         \<lparr>queues := (queues example_follow_state)[1 := [Line ''b1'', Sentinel]]\<rparr>"
    by blast+
  from follow_returns_every_line
    [of example_utils ?env "''job-abc''" ?job example_calls 0 "''job-abc-node-0-0''" ?pre
        "[Line ''late'']" example_single_state "''node-0''" ?final 0 "[Line ''b1'', Sentinel]"]
    h4
  have c: "list_all (\<lambda>b. b) (finished ?final)" by blast
  from a b c show ?thesis
    using h2 h3 h4 example_follow_state_run
    by (simp add: l example_str_int printed_def del: lines_of.simps)
qed

text \<open>
  C10. When the Job that \<^verbatim>\<open>get_job_logs\<close> fetched has no step that is named
  \<^verbatim>\<open>step\<close> or \<^verbatim>\<open>f"{step}-{node_rank}"\<close> and has a status other than Pending, the
  call returns the empty dictionary, prints nothing and has made the cluster calls of
  \<^verbatim>\<open>get_job\<close> only, none of which reads a log.
\<close>

theorem no_matching_step_no_logs:
  assumes "get_job u (job_responses env) n = (Inr job, t)"
    and "\<forall>c\<in>set (steps job).
           \<not> ((Step.name c = step \<or> Step.name c = step @ ''-'' @ str_int node_rank)
              \<and> Step.status c \<noteq> Some POD_PENDING)"
  shows "get_job_logs u env n follow step node_rank = Some ((Inr Map.empty, t), [])
     \<and> (\<forall>c\<in>set t. \<not> is_log_read c)"
proof -
  from find_pod_name_none [OF assms(2)]
  have "find_pod_name (steps job) step node_rank None = None" .
  with assms(1) have "get_job_logs u env n follow step node_rank = Some ((Inr Map.empty, t), [])"
    by (simp add: get_job_logs_def)
  moreover from get_job_no_log_read [of u "job_responses env" n] assms(1)
  have "\<forall>c\<in>set t. \<not> is_log_read c" by simp
  ultimately show ?thesis by simp
qed

theorem no_matching_step_no_logs_witness:
  "get_job example_utils
     (job_responses (example_logs_env
        (example_responses 2 None (example_nodes ''Pending'' ''Running'')) []))
     ''job-abc''
   = (Inr (example_trainjob (example_steps ''Pending'' ''Running'') ''Created''), example_calls)
   \<and> get_job_logs example_utils
       (example_logs_env (example_responses 2 None (example_nodes ''Pending'' ''Running'')) [])
       ''job-abc'' False ''node'' 0
     = Some ((Inr Map.empty, example_calls), [])
   \<and> list_all (\<lambda>c. \<not> is_log_read c) example_calls"
proof -
  let ?env = "example_logs_env (example_responses 2 None (example_nodes ''Pending'' ''Running'')) []"
  let ?job = "example_trainjob (example_steps ''Pending'' ''Running'') ''Created''"
  have g: "get_job example_utils (job_responses ?env) ''job-abc'' = (Inr ?job, example_calls)"
    by (simp add: example_logs_env_def example_pending_running)
  have h: "\<forall>c\<in>set (steps ?job).
           \<not> ((Step.name c = ''node'' \<or> Step.name c = ''node'' @ ''-'' @ str_int 0)
              \<and> Step.status c \<noteq> Some POD_PENDING)"
    by (simp add: example_trainjob_def example_steps_def example_str_int)
  from no_matching_step_no_logs [OF g h, of False] g
  show ?thesis by (simp add: list_all_iff)
qed

end
